theory Spec2Isabelle
  imports Main
begin

section \<open>The syntax tree\<close>

text \<open>
  The converter works on the tree of \<^verbatim>\<open>go/ast\<close>. Every node kind that one of the
  passes inspects is a constructor of its own, with the fields the passes read; every
  other node kind is \<open>Other\<close>, holding its kind and its children in walk order.
  An interface field that may be nil is an option. An identifier that is only a name
  (the selector of a field access, the names of a field or of a value specification)
  is a string.
\<close>

datatype tok = T_VAR | T_CONST | T_DEFINE | T_ASSIGN | T_IMPORT | T_TYPE | T_ADD_ASSIGN

datatype litkind = K_INT | K_FLOAT | K_IMAG | K_CHAR | K_STRING

datatype node =
    Ident string
  | BasicLit litkind string
  | CompositeLit "node option" "node list"
  | KeyValueExpr node node
  | SelectorExpr node string
  | CallExpr node "node list"
  | FuncLit node node
  | ArrayType "node option" node
  | StructType "node list"
  | MapType node node
  | Field "string list" node
  | AssignStmt "node list" tok "node list"
  | RangeStmt "node option" "node option" node node
  | ExprStmt node
  | DeclStmt node
  | BlockStmt "node list"
  | GenDecl tok "node list"
  | ValueSpec "string list" "node option" "node list"
  | FuncDecl string node node
  | File string "node list"
  | Other string "node list"

subsection \<open>Walking the tree\<close>

text \<open>
  \<^verbatim>\<open>ast.Inspect(node, f)\<close> calls \<open>f\<close> on a node and then, \<open>f\<close> having returned true
  (every visitor of the converter does), walks the children the node has after the call.
  \<open>children\<close> lists them in the order of \<^verbatim>\<open>ast.Walk\<close>; \<open>rebuild\<close> puts a
  list of walked children back into their places.
\<close>

fun optList :: "node option \<Rightarrow> node list" where
  "optList None = []"
| "optList (Some n) = [n]"

fun children :: "node \<Rightarrow> node list" where
  "children (Ident s) = []"
| "children (BasicLit k v) = []"
| "children (CompositeLit ty elts) = optList ty @ elts"
| "children (KeyValueExpr k v) = [k, v]"
| "children (SelectorExpr x sel) = [x]"
| "children (CallExpr fn args) = fn # args"
| "children (FuncLit ty body) = [ty, body]"
| "children (ArrayType len elt) = optList len @ [elt]"
| "children (StructType fields) = fields"
| "children (MapType k v) = [k, v]"
| "children (Field names ty) = [ty]"
| "children (AssignStmt lhs t rhs) = lhs @ rhs"
| "children (RangeStmt k v x body) = optList k @ optList v @ [x, body]"
| "children (ExprStmt x) = [x]"
| "children (DeclStmt d) = [d]"
| "children (BlockStmt stmts) = stmts"
| "children (GenDecl t specs) = specs"
| "children (ValueSpec names ty vals) = optList ty @ vals"
| "children (FuncDecl name ty body) = [ty, body]"
| "children (File name decls) = decls"
| "children (Other kind cs) = cs"

fun optTake :: "node option \<Rightarrow> node list \<Rightarrow> node option" where
  "optTake None cs = None"
| "optTake (Some n) cs = Some (hd cs)"

fun optDrop :: "node option \<Rightarrow> node list \<Rightarrow> node list" where
  "optDrop None cs = cs"
| "optDrop (Some n) cs = tl cs"

fun rebuild :: "node \<Rightarrow> node list \<Rightarrow> node" where
  "rebuild (Ident s) cs = Ident s"
| "rebuild (BasicLit k v) cs = BasicLit k v"
| "rebuild (CompositeLit ty elts) cs = CompositeLit (optTake ty cs) (optDrop ty cs)"
| "rebuild (KeyValueExpr k v) cs = KeyValueExpr (cs ! 0) (cs ! 1)"
| "rebuild (SelectorExpr x sel) cs = SelectorExpr (cs ! 0) sel"
| "rebuild (CallExpr fn args) cs = CallExpr (hd cs) (tl cs)"
| "rebuild (FuncLit ty body) cs = FuncLit (cs ! 0) (cs ! 1)"
| "rebuild (ArrayType len elt) cs = ArrayType (optTake len cs) (hd (optDrop len cs))"
| "rebuild (StructType fields) cs = StructType cs"
| "rebuild (MapType k v) cs = MapType (cs ! 0) (cs ! 1)"
| "rebuild (Field names ty) cs = Field names (cs ! 0)"
| "rebuild (AssignStmt lhs t rhs) cs =
     AssignStmt (take (length lhs) cs) t (drop (length lhs) cs)"
| "rebuild (RangeStmt k v x body) cs =
     RangeStmt (optTake k cs) (optTake v (optDrop k cs))
       (optDrop v (optDrop k cs) ! 0) (optDrop v (optDrop k cs) ! 1)"
| "rebuild (ExprStmt x) cs = ExprStmt (cs ! 0)"
| "rebuild (DeclStmt d) cs = DeclStmt (cs ! 0)"
| "rebuild (BlockStmt stmts) cs = BlockStmt cs"
| "rebuild (GenDecl t specs) cs = GenDecl t cs"
| "rebuild (ValueSpec names ty vals) cs = ValueSpec names (optTake ty cs) (optDrop ty cs)"
| "rebuild (FuncDecl name ty body) cs = FuncDecl name (cs ! 0) (cs ! 1)"
| "rebuild (File name decls) cs = File name cs"
| "rebuild (Other kind xs) cs = Other kind cs"

text \<open>
  The measure under which every pass ends. A pass may replace a node before its children
  are walked, so the measure is chosen such that no replacement of the converter
  increases it: an absent range key weighs what the identifier put there weighs, a slice
  type weighs twice its element type and a key-value pair weighs nothing by itself.
\<close>

fun weight :: "node \<Rightarrow> nat" where
  "weight (Ident s) = 1"
| "weight (BasicLit k v) = 1"
| "weight (CompositeLit ty elts) =
     3 + (case ty of None \<Rightarrow> 0 | Some t \<Rightarrow> weight t) + sum_list (map weight elts)"
| "weight (KeyValueExpr k v) = weight k + weight v"
| "weight (SelectorExpr x sel) = 1 + weight x"
| "weight (CallExpr fn args) = 1 + weight fn + sum_list (map weight args)"
| "weight (FuncLit ty body) = 1 + weight ty + weight body"
| "weight (ArrayType len elt) =
     4 + (case len of None \<Rightarrow> 0 | Some l \<Rightarrow> weight l) + 2 * weight elt"
| "weight (StructType fields) = 1 + sum_list (map weight fields)"
| "weight (MapType k v) = 1 + weight k + weight v"
| "weight (Field names ty) = 1 + weight ty"
| "weight (AssignStmt lhs t rhs) =
     1 + sum_list (map weight lhs) + sum_list (map weight rhs)"
| "weight (RangeStmt k v x body) =
     1 + (case k of None \<Rightarrow> 1 | Some n \<Rightarrow> weight n)
       + (case v of None \<Rightarrow> 0 | Some n \<Rightarrow> weight n) + weight x + weight body"
| "weight (ExprStmt x) = 1 + weight x"
| "weight (DeclStmt d) = 1 + weight d"
| "weight (BlockStmt stmts) = 1 + sum_list (map weight stmts)"
| "weight (GenDecl t specs) = 1 + sum_list (map weight specs)"
| "weight (ValueSpec names ty vals) =
     1 + (case ty of None \<Rightarrow> 0 | Some t \<Rightarrow> weight t) + sum_list (map weight vals)"
| "weight (FuncDecl name ty body) = 1 + weight ty + weight body"
| "weight (File name decls) = 1 + sum_list (map weight decls)"
| "weight (Other kind cs) = 1 + sum_list (map weight cs)"

lemma weight_pos: "0 < weight n"
  by (induction n) auto

lemma weight_member: "x \<in> set xs \<Longrightarrow> weight x \<le> sum_list (map weight xs)"
  by (induction xs) auto

lemma weight_children: "c \<in> set (children n) \<Longrightarrow> weight c < weight n"
proof (cases n)
  case (KeyValueExpr k v)
  assume "c \<in> set (children n)"
  with KeyValueExpr weight_pos [of k] weight_pos [of v] show ?thesis by auto
next
  case (ArrayType len elt)
  assume "c \<in> set (children n)"
  with ArrayType show ?thesis by (cases len) auto
next
  case (CompositeLit ty elts)
  assume "c \<in> set (children n)"
  with CompositeLit show ?thesis by (cases ty) (auto dest: weight_member)
next
  case (RangeStmt k v x body)
  assume "c \<in> set (children n)"
  with RangeStmt show ?thesis by (cases k; cases v) auto
next
  case (ValueSpec names ty vals)
  assume "c \<in> set (children n)"
  with ValueSpec show ?thesis by (cases ty) (auto dest: weight_member)
qed (auto dest: weight_member)


section \<open>What both converters share\<close>

text \<open>
  The repository holds the converter twice (both texts are in \<^verbatim>\<open>src/unnamed/part_003\<close>):
  the first, lines 29 to 446, converts the tables of \<^verbatim>\<open>var\<close> and \<^verbatim>\<open>const\<close>
  declarations, the second, lines 446 to 765, the tables of assignments. Their
  definitions carry the suffix 1 and 2. \<^verbatim>\<open>findNameField\<close>,
  \<^verbatim>\<open>createStructTypeWithoutField\<close>, \<^verbatim>\<open>isBlankIdent\<close>, the writing of the file and
  \<^verbatim>\<open>ConvertTableTests\<close> are the same text in both.
\<close>

text \<open>
  \<^verbatim>\<open>findNameField\<close>: the first field whose first name is \<^verbatim>\<open>name\<close>, \<^verbatim>\<open>desc\<close> or
  \<^verbatim>\<open>description\<close>, with its index; the empty name and \<open>-1\<close> when there is none.
  A field list that is nil has no field, as the empty one.
\<close>

fun findNameFieldFrom :: "int \<Rightarrow> node list \<Rightarrow> string \<times> int" where
  "findNameFieldFrom i [] = ([], - 1)"
| "findNameFieldFrom i (Field (fieldName # more) ty # fields) =
     (if fieldName = ''name'' \<or> fieldName = ''desc'' \<or> fieldName = ''description''
      then (fieldName, i)
      else findNameFieldFrom (i + 1) fields)"
| "findNameFieldFrom i (other # fields) = findNameFieldFrom (i + 1) fields"

definition findNameField :: "node list \<Rightarrow> string \<times> int" where
  "findNameField fields = findNameFieldFrom 0 fields"

text \<open>
  The loop \<^verbatim>\<open>for i, x := range xs { if i != k { ys = append(ys, x) } }\<close>, which both
  converters run over the fields of the struct type and over the values of a row;
  the first argument is the index of the head of the list.
\<close>

fun withoutIndex :: "int \<Rightarrow> int \<Rightarrow> 'a list \<Rightarrow> 'a list" where
  "withoutIndex i k [] = []"
| "withoutIndex i k (x # xs) =
     (if i \<noteq> k then x # withoutIndex (i + 1) k xs else withoutIndex (i + 1) k xs)"

definition createStructTypeWithoutField :: "node list \<Rightarrow> int \<Rightarrow> node" where
  "createStructTypeWithoutField fields fieldIndex =
     (if fieldIndex < 0 then StructType fields
      else StructType (withoutIndex 0 fieldIndex fields))"

fun isBlankIdent :: "node option \<Rightarrow> bool" where
  "isBlankIdent (Some (Ident s)) = (s = ''_'')"
| "isBlankIdent other = False"

section \<open>The converter that scans assignments\<close>

subsection \<open>Step 1: the tables\<close>

text \<open>
  The rows of a table, lines 611 to 638: a row that is a composite literal with a basic
  literal at the index of the name field becomes a key-value pair, the literal being the
  key; every other row is passed over.
\<close>

fun tableEntries2 :: "int \<Rightarrow> node list \<Rightarrow> node list" where
  "tableEntries2 nameFieldIndex [] = []"
| "tableEntries2 nameFieldIndex (CompositeLit ty elts # rows) =
     (if nameFieldIndex < int (length elts)
      then (case elts ! nat nameFieldIndex of
              BasicLit k v \<Rightarrow>
                KeyValueExpr (BasicLit k v)
                  (CompositeLit None (withoutIndex 0 nameFieldIndex elts))
                  # tableEntries2 nameFieldIndex rows
            | other \<Rightarrow> tableEntries2 nameFieldIndex rows)
      else tableEntries2 nameFieldIndex rows)"
| "tableEntries2 nameFieldIndex (other # rows) = tableEntries2 nameFieldIndex rows"

text \<open>
  One right-hand side of an assignment, at index \<open>i\<close>: a composite literal whose type is
  a slice of an anonymous struct with a name field, assigned to an identifier, is
  replaced by the map literal, and the identifier is recorded.
\<close>

fun convertRhs2 :: "node list \<Rightarrow> nat \<Rightarrow> node \<Rightarrow> node \<times> string list" where
  "convertRhs2 lhs i (CompositeLit (Some (ArrayType None (StructType fields))) elts) =
     (let (nameField, nameFieldIndex) = findNameField fields in
      if nameField = [] then
        (CompositeLit (Some (ArrayType None (StructType fields))) elts, [])
      else if i < length lhs then
        (case lhs ! i of
           Ident name \<Rightarrow>
             (CompositeLit
                (Some (MapType (Ident ''string'')
                   (createStructTypeWithoutField fields nameFieldIndex)))
                (tableEntries2 nameFieldIndex elts), [name])
         | other \<Rightarrow> (CompositeLit (Some (ArrayType None (StructType fields))) elts, []))
      else (CompositeLit (Some (ArrayType None (StructType fields))) elts, []))"
| "convertRhs2 lhs i rhs = (rhs, [])"

fun convertAllRhs2 :: "node list \<Rightarrow> nat \<Rightarrow> node list \<Rightarrow> node list \<times> string list" where
  "convertAllRhs2 lhs i [] = ([], [])"
| "convertAllRhs2 lhs i (rhs # more) =
     (let (rhs', found) = convertRhs2 lhs i rhs;
          (more', found') = convertAllRhs2 lhs (Suc i) more
      in (rhs' # more', found @ found'))"

text \<open>The visitor of the first pass; it returns the table variables it has found.\<close>

fun tableAssign2 :: "node \<Rightarrow> node \<times> string list" where
  "tableAssign2 (AssignStmt lhs t rhs) =
     (if t \<noteq> T_DEFINE \<and> t \<noteq> T_ASSIGN then (AssignStmt lhs t rhs, [])
      else (let (rhs', found) = convertAllRhs2 lhs 0 rhs in (AssignStmt lhs t rhs', found)))"
| "tableAssign2 n = (n, [])"

subsection \<open>Step 2: the range loops\<close>

text \<open>
  The visitor of the second pass: a loop over an identifier recorded in
  \<^verbatim>\<open>tableTestVars\<close> whose key is absent or blank gets the key \<^verbatim>\<open>name\<close>.
\<close>

fun rangeKey2 :: "string list \<Rightarrow> node \<Rightarrow> node \<times> bool" where
  "rangeKey2 tableTestVars (RangeStmt k v (Ident x) body) =
     (if x \<in> set tableTestVars \<and> (isBlankIdent k \<or> k = None)
      then (RangeStmt (Some (Ident ''name'')) v (Ident x) body, True)
      else (RangeStmt k v (Ident x) body, False))"
| "rangeKey2 tableTestVars n = (n, False)"

subsection \<open>Step 3: the calls of \<^verbatim>\<open>t.Run\<close>\<close>

text \<open>
  The visitor of the third pass. A call \<^verbatim>\<open>t.Run(tc.name, ...)\<close>, the field being
  \<^verbatim>\<open>name\<close>, \<^verbatim>\<open>desc\<close> or \<^verbatim>\<open>description\<close>, gets the identifier
  \<^verbatim>\<open>name\<close> as its first argument. The boolean tells whether \<^verbatim>\<open>modified\<close>
  was set.
\<close>

fun runCall2 :: "node \<Rightarrow> node \<times> bool" where
  "runCall2 (CallExpr (SelectorExpr (Ident r) m) (SelectorExpr (Ident x) sel # args)) =
     (if r = ''t'' \<and> m = ''Run'' \<and> x = ''tc''
         \<and> (sel = ''name'' \<or> sel = ''desc'' \<or> sel = ''description'')
      then (CallExpr (SelectorExpr (Ident r) m) (Ident ''name'' # args), True)
      else (CallExpr (SelectorExpr (Ident r) m) (SelectorExpr (Ident x) sel # args), False))"
| "runCall2 n = (n, False)"

subsection \<open>The passes end\<close>

lemma withoutIndex_weight:
  "sum_list (map weight (withoutIndex i k xs)) \<le> sum_list (map weight xs)"
proof (induction xs arbitrary: i)
  case Nil
  then show ?case by simp
next
  case (Cons x xs)
  from Cons [of "i + 1"] show ?case by (auto intro: trans_le_add2)
qed

lemma withoutIndex_past: "k < i \<Longrightarrow> withoutIndex i k xs = xs"
  by (induction xs arbitrary: i) auto

lemma withoutIndex_weight_at:
  "i \<le> k \<Longrightarrow> k < i + int (length xs) \<Longrightarrow>
   sum_list (map weight (withoutIndex i k xs)) + weight (xs ! nat (k - i))
     = sum_list (map weight xs)"
proof (induction xs arbitrary: i)
  case Nil
  then show ?case by simp
next
  case (Cons x xs)
  show ?case
  proof (cases "i = k")
    case True
    then show ?thesis by (simp add: withoutIndex_past)
  next
    case False
    with Cons.prems have a: "i + 1 \<le> k" "k < (i + 1) + int (length xs)" by auto
    from False Cons.prems have "nat (k - i) = Suc (nat (k - (i + 1)))" by auto
    with Cons.IH [OF a] False show ?thesis by simp
  qed
qed

lemma weight_createStructTypeWithoutField:
  "weight (createStructTypeWithoutField fields k) \<le> weight (StructType fields)"
  using withoutIndex_weight [of 0 k fields]
  by (simp add: createStructTypeWithoutField_def)

lemma weight_tableEntries2:
  "0 \<le> k \<Longrightarrow> sum_list (map weight (tableEntries2 k rows)) \<le> sum_list (map weight rows)"
proof (induction k rows rule: tableEntries2.induct)
  case (2 k ty elts rows)
  show ?case
  proof (cases "k < int (length elts)")
    case True
    with "2.prems" withoutIndex_weight_at [of 0 k elts]
    have w: "sum_list (map weight (withoutIndex 0 k elts)) + weight (elts ! nat k)
               = sum_list (map weight elts)" by simp
    from True "2.IH" "2.prems" w show ?thesis
      by (cases "elts ! nat k") (auto split: node.splits)
  next
    case False
    with "2.IH" "2.prems" show ?thesis by auto
  qed
qed auto

lemma findNameFieldFrom_index:
  "findNameFieldFrom i fields = (nm, k) \<Longrightarrow> nm \<noteq> [] \<Longrightarrow> i \<le> k \<and> k < i + int (length fields)"
  by (induction i fields rule: findNameFieldFrom.induct) (fastforce split: if_splits)+

lemma findNameField_index:
  "findNameField fields = (nm, k) \<Longrightarrow> nm \<noteq> [] \<Longrightarrow> 0 \<le> k \<and> k < int (length fields)"
  using findNameFieldFrom_index [of 0 fields nm k] by (simp add: findNameField_def)

lemma weight_convertRhs2: "weight (fst (convertRhs2 lhs i rhs)) \<le> weight rhs"
proof (induction lhs i rhs rule: convertRhs2.induct)
  case (1 lhs i fields elts)
  obtain nm k where f: "findNameField fields = (nm, k)" by (cases "findNameField fields")
  show ?case
  proof (cases "nm = []")
    case True
    with f show ?thesis by simp
  next
    case False
    with f findNameField_index have "0 \<le> k" by blast
    with weight_tableEntries2 [of k elts] weight_createStructTypeWithoutField [of fields k] f
    show ?thesis by (auto split: node.splits)
  qed
qed auto

lemma weight_convertAllRhs2:
  "sum_list (map weight (fst (convertAllRhs2 lhs i rhs))) \<le> sum_list (map weight rhs)"
proof (induction rhs arbitrary: i)
  case Nil
  then show ?case by simp
next
  case (Cons r rs)
  obtain r' f where a: "convertRhs2 lhs i r = (r', f)" by (cases "convertRhs2 lhs i r")
  obtain rs' fs where b: "convertAllRhs2 lhs (Suc i) rs = (rs', fs)"
    by (cases "convertAllRhs2 lhs (Suc i) rs")
  from a b weight_convertRhs2 [of lhs i r] Cons.IH [of "Suc i"] show ?case by simp
qed

lemma weight_tableAssign2: "weight (fst (tableAssign2 n)) \<le> weight n"
proof (cases n)
  case (AssignStmt lhs t rhs)
  with weight_convertAllRhs2 [of lhs 0 rhs] show ?thesis by (auto split: prod.splits)
qed auto

lemma weight_rangeKey2: "weight (fst (rangeKey2 vars n)) \<le> weight n"
  by (induction vars n rule: rangeKey2.induct)
    (auto split: option.splits simp: Suc_le_eq weight_pos)

lemma weight_runCall2: "weight (fst (runCall2 n)) \<le> weight n"
  by (induction n rule: runCall2.induct) auto

subsection \<open>The three passes\<close>

function findTables2 :: "node \<Rightarrow> node \<times> string list" where
  "findTables2 n =
     (let (n', found) = tableAssign2 n;
          rs = map findTables2 (children n')
      in (rebuild n' (map fst rs), found @ concat (map snd rs)))"
  by pat_completeness auto
termination
proof (relation "measure weight")
  show "wf (measure weight)" by simp
next
  fix n x :: node and xa :: "node \<times> string list" and y :: "string list" and c :: node
  assume "xa = tableAssign2 n" "(x, y) = xa" "c \<in> set (children x)"
  then have "weight c < weight x" and "x = fst (tableAssign2 n)"
    by (auto dest: weight_children simp: fst_def split: prod.splits)
  with weight_tableAssign2 [of n] show "(c, n) \<in> measure weight" by simp
qed

declare findTables2.simps [simp del]

function updateRanges2 :: "string list \<Rightarrow> node \<Rightarrow> node \<times> bool" where
  "updateRanges2 tableTestVars n =
     (let (n', m) = rangeKey2 tableTestVars n;
          rs = map (updateRanges2 tableTestVars) (children n')
      in (rebuild n' (map fst rs), m \<or> list_ex snd rs))"
  by pat_completeness auto
termination
proof (relation "measure (\<lambda>(vars, n). weight n)")
  show "wf (measure (\<lambda>(vars, n). weight n))" by simp
next
  fix vars :: "string list" and n x :: node and xa :: "node \<times> bool" and y :: bool
    and c :: node
  assume "xa = rangeKey2 vars n" "(x, y) = xa" "c \<in> set (children x)"
  then have "weight c < weight x" and "x = fst (rangeKey2 vars n)"
    by (auto dest: weight_children simp: fst_def split: prod.splits)
  with weight_rangeKey2 [of vars n]
  show "((vars, c), (vars, n)) \<in> measure (\<lambda>(vars, n). weight n)" by simp
qed

declare updateRanges2.simps [simp del]

function updateRunCalls2 :: "node \<Rightarrow> node \<times> bool" where
  "updateRunCalls2 n =
     (let (n', m) = runCall2 n;
          rs = map updateRunCalls2 (children n')
      in (rebuild n' (map fst rs), m \<or> list_ex snd rs))"
  by pat_completeness auto
termination
proof (relation "measure weight")
  show "wf (measure weight)" by simp
next
  fix n x :: node and xa :: "node \<times> bool" and y :: bool and c :: node
  assume "xa = runCall2 n" "(x, y) = xa" "c \<in> set (children x)"
  then have "weight c < weight x" and "x = fst (runCall2 n)"
    by (auto dest: weight_children simp: fst_def split: prod.splits)
  with weight_runCall2 [of n] show "(c, n) \<in> measure weight" by simp
qed

declare updateRunCalls2.simps [simp del]

text \<open>
  The three passes in their order, lines 551 to 696: the tree, \<^verbatim>\<open>modified\<close> and
  \<^verbatim>\<open>tablesConverted\<close> after them.
\<close>

definition convertTree2 :: "node \<Rightarrow> node \<times> bool \<times> int" where
  "convertTree2 node =
     (let (n1, tableTestVars) = findTables2 node;
          (n2, m2) = updateRanges2 tableTestVars n1;
          (n3, m3) = updateRunCalls2 n2
      in (n3, tableTestVars \<noteq> [] \<or> m2 \<or> m3, int (length tableTestVars)))"

section \<open>The converter that scans declarations\<close>

subsection \<open>The tables\<close>

text \<open>
  \<^verbatim>\<open>convertElementsToMapEntries\<close>, lines 359 to 399. The key is a new string literal
  holding the text of the literal at the index of the name field.
\<close>

fun mapEntries1 :: "int \<Rightarrow> node list \<Rightarrow> node list" where
  "mapEntries1 nameFieldIndex [] = []"
| "mapEntries1 nameFieldIndex (CompositeLit ty elts # rows) =
     (if nameFieldIndex \<ge> int (length elts) then mapEntries1 nameFieldIndex rows
      else (case elts ! nat nameFieldIndex of
              BasicLit k nameValue \<Rightarrow>
                KeyValueExpr (BasicLit K_STRING nameValue)
                  (CompositeLit None (withoutIndex 0 nameFieldIndex elts))
                  # mapEntries1 nameFieldIndex rows
            | other \<Rightarrow> mapEntries1 nameFieldIndex rows))"
| "mapEntries1 nameFieldIndex (other # rows) = mapEntries1 nameFieldIndex rows"

definition convertElementsToMapEntries :: "node list \<Rightarrow> int \<Rightarrow> node list" where
  "convertElementsToMapEntries elements nameFieldIndex =
     (if nameFieldIndex < 0 then elements else mapEntries1 nameFieldIndex elements)"

text \<open>
  One value of a value specification, lines 151 to 203, under the type the
  specification has when the value is reached: the result is the type of the
  specification, the value and the number of tables converted. The map type keeps the
  struct type as it was; the struct type without the name field is stored in the slice
  type, which the tree no longer holds.
\<close>

fun convertValue1 :: "node option \<Rightarrow> node \<Rightarrow> node option \<times> node \<times> nat" where
  "convertValue1 (Some (ArrayType None (StructType fields))) val =
     (let (nameField, nameFieldIndex) = findNameField fields in
      if nameField = [] then (Some (ArrayType None (StructType fields)), val, 0)
      else (case val of
              CompositeLit vty elts \<Rightarrow>
                (Some (MapType (Ident ''string'') (StructType fields)),
                 CompositeLit (Some (MapType (Ident ''string'') (StructType fields)))
                   (convertElementsToMapEntries elts nameFieldIndex),
                 1)
            | other \<Rightarrow> (Some (ArrayType None (StructType fields)), val, 0)))"
| "convertValue1 ty val = (ty, val, 0)"

fun convertValues1 :: "node option \<Rightarrow> node list \<Rightarrow> node option \<times> node list \<times> nat" where
  "convertValues1 ty [] = (ty, [], 0)"
| "convertValues1 ty (val # vals) =
     (let (ty', val', c) = convertValue1 ty val;
          (ty'', vals', c') = convertValues1 ty' vals
      in (ty'', val' # vals', c + c'))"

fun convertSpec1 :: "node \<Rightarrow> node \<times> nat" where
  "convertSpec1 (ValueSpec names ty vals) =
     (let (ty', vals', c) = convertValues1 ty vals in (ValueSpec names ty' vals', c))"
| "convertSpec1 spec = (spec, 0)"

text \<open>The visitor of the first pass, with the number of tables it has converted.\<close>

fun tableDecl1 :: "node \<Rightarrow> node \<times> nat" where
  "tableDecl1 (GenDecl t specs) =
     (if t \<noteq> T_VAR \<and> t \<noteq> T_CONST then (GenDecl t specs, 0)
      else (GenDecl t (map (fst \<circ> convertSpec1) specs),
            sum_list (map (snd \<circ> convertSpec1) specs)))"
| "tableDecl1 n = (n, 0)"

subsection \<open>The range loops\<close>

text \<open>
  \<^verbatim>\<open>lookupObject\<close>, lines 402 to 424: the object of the first name \<open>name\<close> among the
  \<^verbatim>\<open>var\<close> and \<^verbatim>\<open>const\<close> declarations of the file. The object of such a name
  is known by its declaration, the value specification, which is what the model returns.
\<close>

fun lookupSpecs :: "string \<Rightarrow> node list \<Rightarrow> node option" where
  "lookupSpecs name [] = None"
| "lookupSpecs name (ValueSpec names ty vals # specs) =
     (if name \<in> set names then Some (ValueSpec names ty vals) else lookupSpecs name specs)"
| "lookupSpecs name (other # specs) = lookupSpecs name specs"

fun lookupDecls :: "string \<Rightarrow> node list \<Rightarrow> node option" where
  "lookupDecls name [] = None"
| "lookupDecls name (GenDecl t specs # decls) =
     (if t \<noteq> T_VAR \<and> t \<noteq> T_CONST then lookupDecls name decls
      else (case lookupSpecs name specs of
              Some obj \<Rightarrow> Some obj
            | None \<Rightarrow> lookupDecls name decls))"
| "lookupDecls name (other # decls) = lookupDecls name decls"

fun lookupObject :: "node \<Rightarrow> string \<Rightarrow> node option" where
  "lookupObject (File pkg decls) name = lookupDecls name decls"
| "lookupObject other name = None"

fun isMapType :: "node option \<Rightarrow> bool" where
  "isMapType (Some (ValueSpec names (Some (MapType k v)) vals)) = True"
| "isMapType other = False"

text \<open>
  The visitor of the second pass, lines 210 to 250. The declarations that
  \<^verbatim>\<open>lookupObject\<close> reads are those of the file after the first pass; the second
  pass changes range statements only.
\<close>

fun rangeKey1 :: "node \<Rightarrow> node \<Rightarrow> node \<times> bool" where
  "rangeKey1 root (RangeStmt k v (Ident x) body) =
     (if isMapType (lookupObject root x) then
        (if k \<noteq> None \<and> v \<noteq> None then (RangeStmt k v (Ident x) body, False)
         else (RangeStmt (if isBlankIdent k \<or> k = None then Some (Ident ''name'') else k)
                 v (Ident x) body, True))
      else (RangeStmt k v (Ident x) body, False))"
| "rangeKey1 root n = (n, False)"

subsection \<open>The calls of \<^verbatim>\<open>t.Run\<close>\<close>

text \<open>The visitor of the third pass, lines 253 to 294: the field is \<^verbatim>\<open>name\<close>.\<close>

fun runCall1 :: "node \<Rightarrow> node \<times> bool" where
  "runCall1 (CallExpr (SelectorExpr (Ident r) m) (SelectorExpr (Ident x) sel # args)) =
     (if r = ''t'' \<and> m = ''Run'' \<and> x = ''tc'' \<and> sel = ''name''
      then (CallExpr (SelectorExpr (Ident r) m) (Ident ''name'' # args), True)
      else (CallExpr (SelectorExpr (Ident r) m) (SelectorExpr (Ident x) sel # args), False))"
| "runCall1 n = (n, False)"

subsection \<open>The passes end\<close>

lemma weight_mapEntries1:
  "0 \<le> k \<Longrightarrow> sum_list (map weight (mapEntries1 k rows)) \<le> sum_list (map weight rows)"
proof (induction k rows rule: mapEntries1.induct)
  case (2 k ty elts rows)
  show ?case
  proof (cases "k < int (length elts)")
    case True
    with "2.prems" withoutIndex_weight_at [of 0 k elts]
    have w: "sum_list (map weight (withoutIndex 0 k elts)) + weight (elts ! nat k)
               = sum_list (map weight elts)" by simp
    from True "2.IH" "2.prems" w show ?thesis
      by (cases "elts ! nat k") (auto split: node.splits)
  next
    case False
    with "2.IH" "2.prems" show ?thesis by auto
  qed
qed auto

lemma weight_convertElementsToMapEntries:
  "sum_list (map weight (convertElementsToMapEntries rows k)) \<le> sum_list (map weight rows)"
  using weight_mapEntries1 [of k rows] by (simp add: convertElementsToMapEntries_def)

definition optWeight :: "node option \<Rightarrow> nat" where
  "optWeight ty = (case ty of None \<Rightarrow> 0 | Some t \<Rightarrow> weight t)"

lemma weight_convertValue1:
  "convertValue1 ty val = (ty', val', c) \<Longrightarrow>
   optWeight ty' + weight val' \<le> optWeight ty + weight val"
proof (induction ty val rule: convertValue1.induct)
  case (1 fields val)
  obtain nm k where f: "findNameField fields = (nm, k)" by (cases "findNameField fields")
  show ?case
  proof (cases val)
    case (CompositeLit vty elts)
    with 1 f weight_convertElementsToMapEntries [of elts k] show ?thesis
      by (auto simp: optWeight_def split: if_splits)
  qed (use 1 f in \<open>auto simp: optWeight_def split: if_splits\<close>)
qed (auto simp: optWeight_def)

lemma weight_convertValues1:
  "convertValues1 ty vals = (ty', vals', c) \<Longrightarrow>
   optWeight ty' + sum_list (map weight vals') \<le> optWeight ty + sum_list (map weight vals)"
proof (induction vals arbitrary: ty ty' vals' c)
  case Nil
  then show ?case by simp
next
  case (Cons v vs)
  obtain t1 v1 c1 where a: "convertValue1 ty v = (t1, v1, c1)"
    by (cases "convertValue1 ty v") auto
  obtain t2 vs2 c2 where b: "convertValues1 t1 vs = (t2, vs2, c2)"
    by (cases "convertValues1 t1 vs") auto
  from a b Cons.prems have e: "ty' = t2" "vals' = v1 # vs2" by auto
  from weight_convertValue1 [OF a] Cons.IH [OF b] e show ?case by simp
qed

lemma weight_convertSpec1: "weight (fst (convertSpec1 spec)) \<le> weight spec"
proof (cases spec)
  case (ValueSpec names ty vals)
  obtain t2 vs2 c2 where b: "convertValues1 ty vals = (t2, vs2, c2)"
    by (cases "convertValues1 ty vals") auto
  from weight_convertValues1 [OF b] ValueSpec b show ?thesis
    by (simp add: optWeight_def)
qed auto

lemma weight_tableDecl1: "weight (fst (tableDecl1 n)) \<le> weight n"
proof (cases n)
  case (GenDecl t specs)
  have "sum_list (map weight (map (fst \<circ> convertSpec1) specs)) \<le> sum_list (map weight specs)"
    by (induction specs) (auto simp: add_mono weight_convertSpec1)
  with GenDecl show ?thesis by simp
qed auto

lemma weight_rangeKey1: "weight (fst (rangeKey1 root n)) \<le> weight n"
  by (induction root n rule: rangeKey1.induct)
    (auto split: option.splits simp: Suc_le_eq weight_pos)

lemma weight_runCall1: "weight (fst (runCall1 n)) \<le> weight n"
  by (induction n rule: runCall1.induct) auto

subsection \<open>The three passes\<close>

function convertDecls1 :: "node \<Rightarrow> node \<times> nat" where
  "convertDecls1 n =
     (let (n', c) = tableDecl1 n;
          rs = map convertDecls1 (children n')
      in (rebuild n' (map fst rs), c + sum_list (map snd rs)))"
  by pat_completeness auto
termination
proof (relation "measure weight")
  show "wf (measure weight)" by simp
next
  fix n x :: node and xa :: "node \<times> nat" and y :: nat and c :: node
  assume "xa = tableDecl1 n" "(x, y) = xa" "c \<in> set (children x)"
  then have "weight c < weight x" and "x = fst (tableDecl1 n)"
    by (auto dest: weight_children simp: fst_def split: prod.splits)
  with weight_tableDecl1 [of n] show "(c, n) \<in> measure weight" by simp
qed

declare convertDecls1.simps [simp del]

function updateLoops1 :: "node \<Rightarrow> node \<Rightarrow> node \<times> bool" where
  "updateLoops1 root n =
     (let (n', m) = rangeKey1 root n;
          rs = map (updateLoops1 root) (children n')
      in (rebuild n' (map fst rs), m \<or> list_ex snd rs))"
  by pat_completeness auto
termination
proof (relation "measure (\<lambda>(root, n). weight n)")
  show "wf (measure (\<lambda>(root, n). weight n))" by simp
next
  fix root n x :: node and xa :: "node \<times> bool" and y :: bool and c :: node
  assume "xa = rangeKey1 root n" "(x, y) = xa" "c \<in> set (children x)"
  then have "weight c < weight x" and "x = fst (rangeKey1 root n)"
    by (auto dest: weight_children simp: fst_def split: prod.splits)
  with weight_rangeKey1 [of root n]
  show "((root, c), (root, n)) \<in> measure (\<lambda>(root, n). weight n)" by simp
qed

declare updateLoops1.simps [simp del]

function updateRunCalls1 :: "node \<Rightarrow> node \<times> bool" where
  "updateRunCalls1 n =
     (let (n', m) = runCall1 n;
          rs = map updateRunCalls1 (children n')
      in (rebuild n' (map fst rs), m \<or> list_ex snd rs))"
  by pat_completeness auto
termination
proof (relation "measure weight")
  show "wf (measure weight)" by simp
next
  fix n x :: node and xa :: "node \<times> bool" and y :: bool and c :: node
  assume "xa = runCall1 n" "(x, y) = xa" "c \<in> set (children x)"
  then have "weight c < weight x" and "x = fst (runCall1 n)"
    by (auto dest: weight_children simp: fst_def split: prod.splits)
  with weight_runCall1 [of n] show "(c, n) \<in> measure weight" by simp
qed

declare updateRunCalls1.simps [simp del]

text \<open>
  The three passes in their order, lines 132 to 294: the tree, \<^verbatim>\<open>modified\<close> and
  \<^verbatim>\<open>tablesConverted\<close> after them.
\<close>

definition convertTree1 :: "node \<Rightarrow> node \<times> bool \<times> int" where
  "convertTree1 node =
     (let (n1, tablesConverted) = convertDecls1 node;
          (n2, m2) = updateLoops1 n1 n1;
          (n3, m3) = updateRunCalls1 n2
      in (n3, tablesConverted \<noteq> 0 \<or> m2 \<or> m3, int tablesConverted))"

section \<open>Files and the batch\<close>

text \<open>
  The file system is a map from paths to contents, with the list of the paths that
  \<^verbatim>\<open>os.Create\<close> has opened. The parser and the printer of the Go library are
  parameters. What the operating system may refuse is a parameter too: a fault says
  whether \<^verbatim>\<open>os.Create\<close> fails, or \<^verbatim>\<open>printer.Fprint\<close> fails after so many
  bytes have reached the file, each with its message.
\<close>

datatype fault = NoFault | CreateFails string | PrintFails nat string

record world =
  files :: "string \<rightharpoonup> string"
  created :: "string list"

record FileResult =
  Modified :: bool
  FileTablesConverted :: int

text \<open>
  \<^verbatim>\<open>processFile\<close>, lines 122 to 314 and 541 to 716, over the three passes of either
  converter. \<^verbatim>\<open>os.Create\<close> empties the file it opens; the printer then writes
  into that file.
\<close>

definition readAndParse :: "(string \<Rightarrow> string + node) \<Rightarrow> world \<Rightarrow> string \<Rightarrow> string + node" where
  "readAndParse parse w filePath =
     (case files w filePath of
        None \<Rightarrow> Inl (''open '' @ filePath @ '': no such file or directory'')
      | Some src \<Rightarrow> parse src)"

definition processFileWith ::
  "(node \<Rightarrow> node \<times> bool \<times> int) \<Rightarrow> (string \<Rightarrow> string + node) \<Rightarrow> (node \<Rightarrow> string) \<Rightarrow>
   fault \<Rightarrow> world \<Rightarrow> string \<Rightarrow> world \<times> (string + FileResult)" where
  "processFileWith convert parse print flt w filePath =
     (case readAndParse parse w filePath of
        Inl err \<Rightarrow> (w, Inl (''error parsing file: '' @ err))
      | Inr node \<Rightarrow>
          (let (node', modified, tablesConverted) = convert node in
           if modified then
             (case flt of
                CreateFails err \<Rightarrow> (w, Inl (''error creating file: '' @ err))
              | PrintFails n err \<Rightarrow>
                  (w\<lparr>files := (files w)(filePath \<mapsto> take n (print node')),
                     created := created w @ [filePath]\<rparr>,
                   Inl (''error writing to file: '' @ err))
              | NoFault \<Rightarrow>
                  (w\<lparr>files := (files w)(filePath \<mapsto> print node'),
                     created := created w @ [filePath]\<rparr>,
                   Inr \<lparr>Modified = True, FileTablesConverted = tablesConverted\<rparr>))
           else (w, Inr \<lparr>Modified = False, FileTablesConverted = 0\<rparr>)))"

definition processFile1 ::
  "(string \<Rightarrow> string + node) \<Rightarrow> (node \<Rightarrow> string) \<Rightarrow>
   fault \<Rightarrow> world \<Rightarrow> string \<Rightarrow> world \<times> (string + FileResult)" where
  "processFile1 = processFileWith convertTree1"

definition processFile2 ::
  "(string \<Rightarrow> string + node) \<Rightarrow> (node \<Rightarrow> string) \<Rightarrow>
   fault \<Rightarrow> world \<Rightarrow> string \<Rightarrow> world \<times> (string + FileResult)" where
  "processFile2 = processFileWith convertTree2"

text \<open>
  \<^verbatim>\<open>filepath.Walk\<close> calls the function on every entry under the directory, and ends
  at the first error the function returns. An entry is what the function is given: the
  path, whether it is a directory, and the error of reaching it.
\<close>

record entry =
  path :: string
  isDir :: bool
  walkErr :: "string option"

fun Walk :: "(entry \<Rightarrow> 's \<Rightarrow> 's \<times> string option) \<Rightarrow> entry list \<Rightarrow> 's \<Rightarrow> 's \<times> string option" where
  "Walk fn [] s = (s, None)"
| "Walk fn (e # es) s =
     (case fn e s of
        (s', Some err) \<Rightarrow> (s', Some err)
      | (s', None) \<Rightarrow> Walk fn es s')"

record ConversionResult =
  FilesProcessed :: int
  FilesModified :: int
  TablesConverted :: int
  Errors :: "string list"

text \<open>\<^verbatim>\<open>strings.HasSuffix\<close> of the Go library.\<close>

definition HasSuffix :: "string \<Rightarrow> string \<Rightarrow> bool" where
  "HasSuffix s suffix =
     (length s \<ge> length suffix \<and> drop (length s - length suffix) s = suffix)"

text \<open>The function given to the walk, lines 81 to 106 and 497 to 525.\<close>

definition walkFn ::
  "(fault \<Rightarrow> world \<Rightarrow> string \<Rightarrow> world \<times> (string + FileResult)) \<Rightarrow> (string \<Rightarrow> fault) \<Rightarrow>
   entry \<Rightarrow> world \<times> ConversionResult \<Rightarrow> (world \<times> ConversionResult) \<times> string option" where
  "walkFn processFile faults e s =
     (let (w, result) = s in
      case walkErr e of
        Some err \<Rightarrow>
          ((w, result\<lparr>Errors := Errors result
                        @ [''Error accessing '' @ path e @ '': '' @ err]\<rparr>), None)
      | None \<Rightarrow>
          if isDir e \<or> \<not> HasSuffix (path e) ''.go'' then ((w, result), None)
          else
            (case processFile (faults (path e)) w (path e) of
               (w', Inl err) \<Rightarrow>
                 ((w', result\<lparr>Errors := Errors result
                                @ [''Error processing '' @ path e @ '': '' @ err]\<rparr>), None)
             | (w', Inr fileResult) \<Rightarrow>
                 ((w', if Modified fileResult
                       then result\<lparr>FilesProcessed := FilesProcessed result + 1,
                                   FilesModified := FilesModified result + 1,
                                   TablesConverted := TablesConverted result
                                      + FileTablesConverted fileResult\<rparr>
                       else result\<lparr>FilesProcessed := FilesProcessed result + 1\<rparr>), None)))"

text \<open>
  \<^verbatim>\<open>ConvertTableTests\<close>, lines 78 to 113 and 494 to 532; the list of entries is what
  the walk finds under the directory.
\<close>

definition ConvertTableTests ::
  "(fault \<Rightarrow> world \<Rightarrow> string \<Rightarrow> world \<times> (string + FileResult)) \<Rightarrow> (string \<Rightarrow> fault) \<Rightarrow>
   entry list \<Rightarrow> world \<Rightarrow> world \<times> ConversionResult \<times> string option" where
  "ConvertTableTests processFile faults entries w =
     (case Walk (walkFn processFile faults) entries
             (w, \<lparr>FilesProcessed = 0, FilesModified = 0, TablesConverted = 0, Errors = []\<rparr>) of
        ((w', result), Some err) \<Rightarrow> (w', result, Some (''error walking directory: '' @ err))
      | ((w', result), None) \<Rightarrow> (w', result, None))"

section \<open>Rows and entries\<close>

text \<open>
  What the specification says of a converted row, in its own words: the entry of a row
  is the pair of a key and of a record literal built from the remaining values of the
  row in their order. The converters convert a row when it is a composite literal that
  has a basic literal at the index they are given (\<open>literalNamed\<close>).
\<close>

fun rowValues :: "node \<Rightarrow> node list" where
  "rowValues (CompositeLit ty elts) = elts"
| "rowValues other = []"




definition keyedEntry :: "nat \<Rightarrow> node \<Rightarrow> node \<Rightarrow> node" where
  "keyedEntry k key row =
     KeyValueExpr key
       (CompositeLit None (take k (rowValues row) @ drop (Suc k) (rowValues row)))"

text \<open>
  The name field of a record, as the specification has it: the first field, in the order
  of declaration, that is named \<^verbatim>\<open>name\<close>, \<^verbatim>\<open>desc\<close> or \<^verbatim>\<open>description\<close>, with
  its position among the fields. A field of the tree that declares several names
  (\<^verbatim>\<open>a, b int\<close>) is as many fields of the record.
\<close>

fun fieldNames :: "node \<Rightarrow> string list" where
  "fieldNames (Field names ty) = names"
| "fieldNames n = []"

definition recognized :: "string \<Rightarrow> bool" where
  "recognized s = (s = ''name'' \<or> s = ''desc'' \<or> s = ''description'')"

fun firstRecognized :: "nat \<Rightarrow> string list \<Rightarrow> (string \<times> nat) option" where
  "firstRecognized p [] = None"
| "firstRecognized p (s # ss) =
     (if recognized s then Some (s, p) else firstRecognized (Suc p) ss)"

definition nameFieldOf :: "node list \<Rightarrow> (string \<times> nat) option" where
  "nameFieldOf fs = firstRecognized 0 (concat (map fieldNames fs))"








text \<open>
  Where every field declares one name, the index that \<^verbatim>\<open>findNameField\<close> returns
  is the position of the name field; and a row that is not written with keys is named
  by a literal when it has a basic literal at that index.
\<close>

lemma findNameFieldFrom_step:
  "findNameFieldFrom i (f # fs) =
     (case fieldNames f of
        [] \<Rightarrow> findNameFieldFrom (i + 1) fs
      | fieldName # others \<Rightarrow>
          if fieldName = ''name'' \<or> fieldName = ''desc'' \<or> fieldName = ''description''
          then (fieldName, i) else findNameFieldFrom (i + 1) fs)"
proof (cases f)
  case (Field names ty)
  then show ?thesis by (cases names) simp_all
qed simp_all










text \<open>
  A table of three rows, the second named by a variable:
  \<^verbatim>\<open>[]struct{ name string; a int }{{"x", 1}, {v, 2}, {"z", 3}}\<close>.
\<close>

definition sampleFields :: "node list" where
  "sampleFields = [Field [''name''] (Ident ''string''), Field [''a''] (Ident ''int'')]"







text \<open>
  A table whose struct declares two names in one field, the name field being the second
  field of the tree and the third field of the record:
  \<^verbatim>\<open>[]struct{ a, b int; name string }{{1, 2, "x"}}\<close>.
\<close>

definition groupedFields :: "node list" where
  "groupedFields = [Field [''a'', ''b''] (Ident ''int''), Field [''name''] (Ident ''string'')]"

definition groupedTable :: node where
  \<open>groupedTable =
     CompositeLit (Some (ArrayType None (StructType groupedFields)))
       [CompositeLit None [BasicLit K_INT ''1'', BasicLit K_INT ''2'', BasicLit K_STRING ''"x"'']]\<close>

text \<open>
  C4. The converters take the key of a row at the index that the name field has in the
  list of the fields of the tree, and not at the position of the name field among the
  values of the row. In the table above the name field stands at position 2 and
  \<^verbatim>\<open>findNameField\<close> returns 1: the entry of the row is keyed by \<^verbatim>\<open>2\<close> and keeps
  \<^verbatim>\<open>"x"\<close> among its values, where the entry of the specification is keyed by
  \<^verbatim>\<open>"x"\<close> and holds \<^verbatim>\<open>1\<close> and \<^verbatim>\<open>2\<close>. The converter of declarations writes
  the key as a new string literal.
\<close>

theorem key_taken_at_field_index:
  \<open>nameFieldOf groupedFields = Some (''name'', 2)
   \<and> findNameField groupedFields = (''name'', 1)
   \<and> convertRhs2 [Ident ''tests''] 0 groupedTable =
       (CompositeLit
          (Some (MapType (Ident ''string'')
             (StructType [Field [''a'', ''b''] (Ident ''int'')])))
          [KeyValueExpr (BasicLit K_INT ''2'')
             (CompositeLit None [BasicLit K_INT ''1'', BasicLit K_STRING ''"x"''])],
        [''tests''])
   \<and> convertValue1 (Some (ArrayType None (StructType groupedFields))) groupedTable =
       (Some (MapType (Ident ''string'') (StructType groupedFields)),
        CompositeLit (Some (MapType (Ident ''string'') (StructType groupedFields)))
          [KeyValueExpr (BasicLit K_STRING ''2'')
             (CompositeLit None [BasicLit K_INT ''1'', BasicLit K_STRING ''"x"''])],
        1)
   \<and> keyedEntry 2 (BasicLit K_STRING ''"x"'')
         (CompositeLit None
            [BasicLit K_INT ''1'', BasicLit K_INT ''2'', BasicLit K_STRING ''"x"'']) =
       KeyValueExpr (BasicLit K_STRING ''"x"'')
         (CompositeLit None [BasicLit K_INT ''1'', BasicLit K_INT ''2''])\<close>
  by (intro conjI; code_simp)

theorem key_taken_at_field_index_witness:
  \<open>rowValues (fst (convertRhs2 [Ident ''tests''] 0 groupedTable)) \<noteq>
     [KeyValueExpr (BasicLit K_STRING ''"x"'')
        (CompositeLit None [BasicLit K_INT ''1'', BasicLit K_INT ''2''])]
   \<and> rowValues (fst (snd (convertValue1 (Some (ArrayType None (StructType groupedFields)))
        groupedTable))) \<noteq>
     [KeyValueExpr (BasicLit K_STRING ''"x"'')
        (CompositeLit None [BasicLit K_INT ''1'', BasicLit K_INT ''2''])]\<close>
proof -
  from key_taken_at_field_index
  have a: \<open>convertRhs2 [Ident ''tests''] 0 groupedTable =
       (CompositeLit
          (Some (MapType (Ident ''string'')
             (StructType [Field [''a'', ''b''] (Ident ''int'')])))
          [KeyValueExpr (BasicLit K_INT ''2'')
             (CompositeLit None [BasicLit K_INT ''1'', BasicLit K_STRING ''"x"''])],
        [''tests''])\<close>
    and b: \<open>convertValue1 (Some (ArrayType None (StructType groupedFields))) groupedTable =
       (Some (MapType (Ident ''string'') (StructType groupedFields)),
        CompositeLit (Some (MapType (Ident ''string'') (StructType groupedFields)))
          [KeyValueExpr (BasicLit K_STRING ''2'')
             (CompositeLit None [BasicLit K_INT ''1'', BasicLit K_STRING ''"x"''])],
        1)\<close>
    by blast+
  show ?thesis unfolding a b by simp
qed

section \<open>The calls that are rewritten\<close>

lemma runCall2_other_base:
  "x \<noteq> ''tc'' \<Longrightarrow>
   runCall2 (CallExpr fn (SelectorExpr (Ident x) sel # args)) =
     (CallExpr fn (SelectorExpr (Ident x) sel # args), False)"
proof (cases fn)
  case (SelectorExpr y m)
  assume "x \<noteq> ''tc''"
  with SelectorExpr show ?thesis by (cases y) auto
qed auto

lemma runCall1_other_base:
  "x \<noteq> ''tc'' \<Longrightarrow>
   runCall1 (CallExpr fn (SelectorExpr (Ident x) sel # args)) =
     (CallExpr fn (SelectorExpr (Ident x) sel # args), False)"
proof (cases fn)
  case (SelectorExpr y m)
  assume "x \<noteq> ''tc''"
  with SelectorExpr show ?thesis by (cases y) auto
qed auto

lemma updateRunCalls2_field_access:
  "updateRunCalls2 (SelectorExpr (Ident x) sel) = (SelectorExpr (Ident x) sel, False)"
  by (simp add: updateRunCalls2.simps)

lemma updateRunCalls1_field_access:
  "updateRunCalls1 (SelectorExpr (Ident x) sel) = (SelectorExpr (Ident x) sel, False)"
  by (simp add: updateRunCalls1.simps)

text \<open>
  C10. A call whose first argument is a field access on an identifier other than
  \<^verbatim>\<open>tc\<close> keeps that argument: the visitor of the third pass leaves the call as it
  is, and the pass over the call walks the function and the other arguments only. The
  pass knows nothing of the loop around the call.
\<close>

theorem only_tc_is_rewritten:
  assumes "x \<noteq> ''tc''"
  shows "runCall2 (CallExpr fn (SelectorExpr (Ident x) sel # args)) =
           (CallExpr fn (SelectorExpr (Ident x) sel # args), False)
       \<and> runCall1 (CallExpr fn (SelectorExpr (Ident x) sel # args)) =
           (CallExpr fn (SelectorExpr (Ident x) sel # args), False)
       \<and> fst (updateRunCalls2 (CallExpr fn (SelectorExpr (Ident x) sel # args))) =
           CallExpr (fst (updateRunCalls2 fn))
             (SelectorExpr (Ident x) sel # map (fst \<circ> updateRunCalls2) args)
       \<and> fst (updateRunCalls1 (CallExpr fn (SelectorExpr (Ident x) sel # args))) =
           CallExpr (fst (updateRunCalls1 fn))
             (SelectorExpr (Ident x) sel # map (fst \<circ> updateRunCalls1) args)"
proof -
  note a = runCall2_other_base [OF assms, of fn sel args]
  note b = runCall1_other_base [OF assms, of fn sel args]
  have "fst (updateRunCalls2 (CallExpr fn (SelectorExpr (Ident x) sel # args))) =
          CallExpr (fst (updateRunCalls2 fn))
            (SelectorExpr (Ident x) sel # map (fst \<circ> updateRunCalls2) args)"
    by (subst updateRunCalls2.simps) (simp add: a updateRunCalls2_field_access)
  moreover
  have "fst (updateRunCalls1 (CallExpr fn (SelectorExpr (Ident x) sel # args))) =
          CallExpr (fst (updateRunCalls1 fn))
            (SelectorExpr (Ident x) sel # map (fst \<circ> updateRunCalls1) args)"
    by (subst updateRunCalls1.simps) (simp add: b updateRunCalls1_field_access)
  ultimately show ?thesis using a b by simp
qed

theorem only_tc_is_rewritten_witness:
  "fst (updateRunCalls2
          (CallExpr (SelectorExpr (Ident ''t'') ''Run'')
             [SelectorExpr (Ident ''test'') ''name'', Ident ''f''])) =
     CallExpr (SelectorExpr (Ident ''t'') ''Run'')
       [SelectorExpr (Ident ''test'') ''name'', Ident ''f'']
   \<and> fst (updateRunCalls1
          (CallExpr (SelectorExpr (Ident ''t'') ''Run'')
             [SelectorExpr (Ident ''c'') ''desc'', Ident ''f''])) =
     CallExpr (SelectorExpr (Ident ''t'') ''Run'')
       [SelectorExpr (Ident ''c'') ''desc'', Ident ''f'']"
proof -
  have h: "''test'' \<noteq> ''tc''" and h': "''c'' \<noteq> ''tc''" by simp_all
  have i: "updateRunCalls2 (Ident s) = (Ident s, False)"
    and j: "updateRunCalls1 (Ident s) = (Ident s, False)" for s
    by (simp_all add: updateRunCalls2.simps updateRunCalls1.simps)
  from only_tc_is_rewritten [OF h, of "SelectorExpr (Ident ''t'') ''Run''" "''name''" "[Ident ''f'']"]
       only_tc_is_rewritten [OF h', of "SelectorExpr (Ident ''t'') ''Run''" "''desc''" "[Ident ''f'']"]
  show ?thesis by (simp add: i j updateRunCalls2_field_access updateRunCalls1_field_access)
qed

text \<open>
  The converter of assignments rewrites the call for each of the three names of a name
  field.
\<close>

lemma runCall2_recognized:
  "sel = ''name'' \<or> sel = ''desc'' \<or> sel = ''description'' \<Longrightarrow>
   runCall2 (CallExpr (SelectorExpr (Ident ''t'') ''Run'')
               (SelectorExpr (Ident ''tc'') sel # args)) =
     (CallExpr (SelectorExpr (Ident ''t'') ''Run'') (Ident ''name'' # args), True)"
  by auto

text \<open>
  C7. The converter of declarations does not: it finds the name field \<^verbatim>\<open>desc\<close> of a
  table, and leaves \<^verbatim>\<open>t.Run(tc.desc, f)\<close> as it is, where the converter of assignments
  writes \<^verbatim>\<open>t.Run(name, f)\<close>.
\<close>

theorem desc_call_kept_by_first_converter:
  "findNameField [Field [''desc''] (Ident ''string''), Field [''a''] (Ident ''int'')]
     = (''desc'', 0)
   \<and> updateRunCalls1
       (CallExpr (SelectorExpr (Ident ''t'') ''Run'')
          [SelectorExpr (Ident ''tc'') ''desc'', Ident ''f'']) =
     (CallExpr (SelectorExpr (Ident ''t'') ''Run'')
        [SelectorExpr (Ident ''tc'') ''desc'', Ident ''f''], False)
   \<and> updateRunCalls2
       (CallExpr (SelectorExpr (Ident ''t'') ''Run'')
          [SelectorExpr (Ident ''tc'') ''desc'', Ident ''f'']) =
     (CallExpr (SelectorExpr (Ident ''t'') ''Run'') [Ident ''name'', Ident ''f''], True)"
  by (simp add: findNameField_def updateRunCalls1.simps updateRunCalls2.simps)

theorem desc_call_kept_by_first_converter_witness:
  "fst (updateRunCalls1
          (CallExpr (SelectorExpr (Ident ''t'') ''Run'')
             [SelectorExpr (Ident ''tc'') ''desc'', Ident ''f'']))
   \<noteq> fst (updateRunCalls2
          (CallExpr (SelectorExpr (Ident ''t'') ''Run'')
             [SelectorExpr (Ident ''tc'') ''desc'', Ident ''f'']))"
  using desc_call_kept_by_first_converter by simp

text \<open>
  A test file without any table:
  \<^verbatim>\<open>package p; func TestX(t *testing.T) { for _, tc := range cases() { t.Run(tc.name, tc.f) } }\<close>
\<close>

definition plainFile :: "node \<Rightarrow> node" where
  "plainFile arg =
     File ''p''
       [FuncDecl ''TestX''
          (Other ''FuncType''
             [Field [''t''] (Other ''StarExpr'' [SelectorExpr (Ident ''testing'') ''T''])])
          (BlockStmt
             [RangeStmt (Some (Ident ''_'')) (Some (Ident ''tc''))
                (CallExpr (Ident ''cases'') [])
                (BlockStmt
                   [ExprStmt
                      (CallExpr (SelectorExpr (Ident ''t'') ''Run'')
                         [arg, SelectorExpr (Ident ''tc'') ''f''])])])]"

lemma convertTree_plainFile:
  "convertTree2 (plainFile (SelectorExpr (Ident ''tc'') ''name'')) =
     (plainFile (Ident ''name''), True, 0)"
  "convertTree1 (plainFile (SelectorExpr (Ident ''tc'') ''name'')) =
     (plainFile (Ident ''name''), True, 0)"
  by code_simp+

text \<open>
  C2. Both converters rewrite the call of that file, in which they have converted no
  variable: the third pass does not ask what was converted.
\<close>

theorem call_rewritten_without_table:
  "convertTree2 (plainFile (SelectorExpr (Ident ''tc'') ''name'')) =
     (plainFile (Ident ''name''), True, 0)
   \<and> convertTree1 (plainFile (SelectorExpr (Ident ''tc'') ''name'')) =
     (plainFile (Ident ''name''), True, 0)
   \<and> plainFile (Ident ''name'') \<noteq> plainFile (SelectorExpr (Ident ''tc'') ''name'')"
  by (simp add: convertTree_plainFile) (simp add: plainFile_def)

theorem call_rewritten_without_table_witness:
  "fst (convertTree2 (plainFile (SelectorExpr (Ident ''tc'') ''name'')))
     \<noteq> plainFile (SelectorExpr (Ident ''tc'') ''name'')"
  using call_rewritten_without_table by simp

section \<open>Files that are written\<close>

text \<open>
  A parser and a printer for the examples: the parser knows the trees of the listed
  texts and refuses every other text, the printer knows the texts of the listed trees.
\<close>

definition parseKnown :: "(string \<times> node) list \<Rightarrow> string \<Rightarrow> string + node" where
  "parseKnown known src =
     (case map_of known src of
        Some n \<Rightarrow> Inr n
      | None \<Rightarrow> Inl ''expected declaration'')"

definition printKnown :: "(node \<times> string) list \<Rightarrow> node \<Rightarrow> string" where
  "printKnown known n = (case map_of known n of Some s \<Rightarrow> s | None \<Rightarrow> [])"

definition goLines :: "string list \<Rightarrow> string" where
  "goLines ls = concat (map (\<lambda>l. l @ [CHR 0x0A]) ls)"

definition plainSrc :: string where
  "plainSrc = goLines
     [''package p'',
      ''func TestX(t *testing.T) {'',
      ''    for _, tc := range cases() { t.Run(tc.name, tc.f) }'',
      ''}'']"

definition plainOut :: string where
  "plainOut = goLines
     [''package p'',
      [],
      ''func TestX(t *testing.T) {'',
      CHR 0x09 # ''for _, tc := range cases() {'',
      CHR 0x09 # CHR 0x09 # ''t.Run(name, tc.f)'',
      CHR 0x09 # ''}'',
      ''}'']"

definition plainParse :: "string \<Rightarrow> string + node" where
  "plainParse = parseKnown [(plainSrc, plainFile (SelectorExpr (Ident ''tc'') ''name''))]"

definition plainPrint :: "node \<Rightarrow> string" where
  "plainPrint = printKnown [(plainFile (Ident ''name''), plainOut)]"

definition plainWorld :: world where
  "plainWorld = \<lparr>files = [''x_test.go'' \<mapsto> plainSrc], created = []\<rparr>"

lemma readAndParse_plainWorld:
  "readAndParse plainParse plainWorld ''x_test.go''
     = Inr (plainFile (SelectorExpr (Ident ''tc'') ''name''))"
  by (simp add: readAndParse_def plainParse_def parseKnown_def plainWorld_def)

lemma plainSrc_not_empty: "plainSrc \<noteq> []"
  by (simp add: plainSrc_def goLines_def)

text \<open>
  C6. The file above declares no slice of structs at all, and both converters open it
  and write it anew, with \<^verbatim>\<open>Modified\<close> set and no table converted.
\<close>

theorem file_without_table_written:
  "processFile2 plainParse plainPrint NoFault plainWorld ''x_test.go'' =
     (\<lparr>files = [''x_test.go'' \<mapsto> plainOut], created = [''x_test.go'']\<rparr>,
      Inr \<lparr>Modified = True, FileTablesConverted = 0\<rparr>)
   \<and> processFile1 plainParse plainPrint NoFault plainWorld ''x_test.go'' =
     (\<lparr>files = [''x_test.go'' \<mapsto> plainOut], created = [''x_test.go'']\<rparr>,
      Inr \<lparr>Modified = True, FileTablesConverted = 0\<rparr>)"
  by (simp add: processFile2_def processFile1_def processFileWith_def
      readAndParse_plainWorld convertTree_plainFile)
    (simp add: plainWorld_def plainPrint_def printKnown_def)

theorem file_without_table_written_witness:
  "created (fst (processFile2 plainParse plainPrint NoFault plainWorld ''x_test.go''))
     = [''x_test.go'']"
  using file_without_table_written by simp

text \<open>
  C3, as the specification has it, fails: the printer failing before a byte is written,
  the file that held the text of the test is left empty.
\<close>

theorem failed_write_empties_file:
  "files (fst (processFile2 plainParse plainPrint (PrintFails 0 ''no space left on device'')
                 plainWorld ''x_test.go'')) ''x_test.go'' = Some []
   \<and> files (fst (processFile1 plainParse plainPrint (PrintFails 0 ''no space left on device'')
                 plainWorld ''x_test.go'')) ''x_test.go'' = Some []
   \<and> snd (processFile2 plainParse plainPrint (PrintFails 0 ''no space left on device'')
                 plainWorld ''x_test.go'')
       = Inl ''error writing to file: no space left on device''
   \<and> files plainWorld ''x_test.go'' = Some plainSrc
   \<and> plainSrc \<noteq> []"
  by (simp add: processFile2_def processFile1_def processFileWith_def
      readAndParse_plainWorld convertTree_plainFile plainSrc_not_empty)
    (simp add: plainWorld_def)

text \<open>
  C3, amended. When the file cannot be created, the file system is as it was before.
  When the printer fails after the file was created, the file holds what was written
  before the failure, a prefix of the text of the converted tree, and the error is
  returned; the text is not built in memory first.
\<close>

theorem write_failure:
  "fst (processFile1 parse print (CreateFails err) w p) = w
   \<and> fst (processFile2 parse print (CreateFails err) w p) = w
   \<and> (readAndParse parse w p = Inr node \<and> convertTree1 node = (node', True, c) \<longrightarrow>
        processFile1 parse print (PrintFails n err) w p =
          (w\<lparr>files := (files w)(p \<mapsto> take n (print node')), created := created w @ [p]\<rparr>,
           Inl (''error writing to file: '' @ err)))
   \<and> (readAndParse parse w p = Inr node \<and> convertTree2 node = (node', True, c) \<longrightarrow>
        processFile2 parse print (PrintFails n err) w p =
          (w\<lparr>files := (files w)(p \<mapsto> take n (print node')), created := created w @ [p]\<rparr>,
           Inl (''error writing to file: '' @ err)))"
  by (auto simp: processFile1_def processFile2_def processFileWith_def
      split: sum.splits prod.splits)

theorem write_failure_witness:
  "fst (processFile2 plainParse plainPrint (CreateFails ''no space left on device'')
          plainWorld ''x_test.go'') = plainWorld
   \<and> processFile2 plainParse plainPrint (PrintFails 9 ''no space left on device'')
        plainWorld ''x_test.go'' =
      (plainWorld\<lparr>files := (files plainWorld)(''x_test.go'' \<mapsto> ''package p''),
                   created := created plainWorld @ [''x_test.go'']\<rparr>,
       Inl ''error writing to file: no space left on device'')"
proof -
  have t: "take 9 (plainPrint (plainFile (Ident ''name''))) = ''package p''"
    by (simp add: plainPrint_def printKnown_def plainOut_def goLines_def)
  from write_failure [of plainParse plainPrint "''no space left on device''" plainWorld
      "''x_test.go''" "plainFile (SelectorExpr (Ident ''tc'') ''name'')"
      "plainFile (Ident ''name'')" 0 9]
    readAndParse_plainWorld convertTree_plainFile t
  show ?thesis by simp
qed

section \<open>What becomes of every file of a batch\<close>

text \<open>
  The specification speaks of what becomes of each file of a batch: it is passed over,
  it cannot be reached, its processing fails with a message, or it is processed with a
  result. The outcomes of a batch are those of its entries in their order, each file
  being processed in the file system that the files before it have left.
\<close>

datatype outcome = Skipped | Unreachable string | Failed string | Processed FileResult

definition outcomeOf ::
  "(fault \<Rightarrow> world \<Rightarrow> string \<Rightarrow> world \<times> (string + FileResult)) \<Rightarrow> (string \<Rightarrow> fault) \<Rightarrow>
   world \<Rightarrow> entry \<Rightarrow> world \<times> outcome" where
  "outcomeOf processFile faults w e =
     (case walkErr e of
        Some err \<Rightarrow> (w, Unreachable err)
      | None \<Rightarrow>
          if isDir e \<or> \<not> HasSuffix (path e) ''.go'' then (w, Skipped)
          else (case processFile (faults (path e)) w (path e) of
                  (w', Inl err) \<Rightarrow> (w', Failed err)
                | (w', Inr fileResult) \<Rightarrow> (w', Processed fileResult)))"

fun outcomes ::
  "(fault \<Rightarrow> world \<Rightarrow> string \<Rightarrow> world \<times> (string + FileResult)) \<Rightarrow> (string \<Rightarrow> fault) \<Rightarrow>
   entry list \<Rightarrow> world \<Rightarrow> (entry \<times> outcome) list" where
  "outcomes processFile faults [] w = []"
| "outcomes processFile faults (e # es) w =
     (e, snd (outcomeOf processFile faults w e))
       # outcomes processFile faults es (fst (outcomeOf processFile faults w e))"

fun isProcessed :: "entry \<times> outcome \<Rightarrow> bool" where
  "isProcessed (e, Processed fileResult) = True"
| "isProcessed (e, other) = False"

fun errorLines :: "entry \<times> outcome \<Rightarrow> string list" where
  "errorLines (e, Unreachable err) = [''Error accessing '' @ path e @ '': '' @ err]"
| "errorLines (e, Failed err) = [''Error processing '' @ path e @ '': '' @ err]"
| "errorLines (e, other) = []"

lemma walkFn_no_error: "snd (walkFn processFile faults e s) = None"
  by (cases s) (simp add: walkFn_def split: option.splits prod.splits sum.splits)

lemma Walk_walkFn_Cons:
  "Walk (walkFn processFile faults) (e # es) s =
     Walk (walkFn processFile faults) es (fst (walkFn processFile faults e s))"
  using walkFn_no_error [of processFile faults e s]
  by (cases "walkFn processFile faults e s") auto

lemma Walk_walkFn_no_error: "snd (Walk (walkFn processFile faults) es s) = None"
proof (induction es arbitrary: s)
  case Nil
  show ?case by simp
next
  case (Cons e es)
  show ?case unfolding Walk_walkFn_Cons by (rule Cons.IH)
qed

lemma Walk_append:
  "Walk (walkFn processFile faults) (es @ es') s =
     Walk (walkFn processFile faults) es' (fst (Walk (walkFn processFile faults) es s))"
proof (induction es arbitrary: s)
  case Nil
  show ?case by simp
next
  case (Cons e es)
  show ?case unfolding append_Cons Walk_walkFn_Cons by (rule Cons.IH)
qed

lemma walkFn_world:
  "fst (fst (walkFn processFile faults e (w, r))) = fst (outcomeOf processFile faults w e)"
  by (simp add: walkFn_def outcomeOf_def split: option.splits prod.splits sum.splits)

lemma walkFn_Errors:
  "Errors (snd (fst (walkFn processFile faults e (w, r)))) =
     Errors r @ errorLines (e, snd (outcomeOf processFile faults w e))"
  by (simp add: walkFn_def outcomeOf_def split: option.splits prod.splits sum.splits)

lemma walkFn_FilesProcessed:
  "FilesProcessed (snd (fst (walkFn processFile faults e (w, r)))) =
     FilesProcessed r
       + (if isProcessed (e, snd (outcomeOf processFile faults w e)) then 1 else 0)"
  by (simp add: walkFn_def outcomeOf_def split: option.splits prod.splits sum.splits)

lemma Walk_Errors:
  "Errors (snd (fst (Walk (walkFn processFile faults) es (w, r)))) =
     Errors r @ concat (map errorLines (outcomes processFile faults es w))"
proof (induction es arbitrary: w r)
  case Nil
  show ?case by simp
next
  case (Cons e es)
  obtain w' r' where s: "fst (walkFn processFile faults e (w, r)) = (w', r')"
    by (cases "fst (walkFn processFile faults e (w, r))")
  from s walkFn_world [of processFile faults e w r]
  have w': "fst (outcomeOf processFile faults w e) = w'" by simp
  from s walkFn_Errors [of processFile faults e w r]
  have r': "Errors r' = Errors r @ errorLines (e, snd (outcomeOf processFile faults w e))"
    by simp
  show ?case unfolding Walk_walkFn_Cons s by (simp add: Cons.IH w' r')
qed

lemma Walk_FilesProcessed:
  "FilesProcessed (snd (fst (Walk (walkFn processFile faults) es (w, r)))) =
     FilesProcessed r + int (length (filter isProcessed (outcomes processFile faults es w)))"
proof (induction es arbitrary: w r)
  case Nil
  show ?case by simp
next
  case (Cons e es)
  obtain w' r' where s: "fst (walkFn processFile faults e (w, r)) = (w', r')"
    by (cases "fst (walkFn processFile faults e (w, r))")
  from s walkFn_world [of processFile faults e w r]
  have w': "fst (outcomeOf processFile faults w e) = w'" by simp
  from s walkFn_FilesProcessed [of processFile faults e w r]
  have r': "FilesProcessed r' = FilesProcessed r
       + (if isProcessed (e, snd (outcomeOf processFile faults w e)) then 1 else 0)"
    by simp
  show ?case unfolding Walk_walkFn_Cons s by (simp add: Cons.IH w' r')
qed

lemma outcomes_entries: "map fst (outcomes processFile faults es w) = es"
  by (induction es arbitrary: w) simp_all

lemma ConvertTableTests_Walk:
  "ConvertTableTests processFile faults entries w =
     (fst (fst (Walk (walkFn processFile faults) entries
        (w, \<lparr>FilesProcessed = 0, FilesModified = 0, TablesConverted = 0, Errors = []\<rparr>))),
      snd (fst (Walk (walkFn processFile faults) entries
        (w, \<lparr>FilesProcessed = 0, FilesModified = 0, TablesConverted = 0, Errors = []\<rparr>))),
      None)"
  using Walk_walkFn_no_error [of processFile faults entries
      "(w, \<lparr>FilesProcessed = 0, FilesModified = 0, TablesConverted = 0, Errors = []\<rparr>)"]
  by (auto simp: ConvertTableTests_def split: prod.splits option.splits)

lemma processFileWith_parse_failure:
  "readAndParse parse w p = Inl err \<Longrightarrow>
   processFileWith convert parse print flt w p = (w, Inl (''error parsing file: '' @ err))"
  by (simp add: processFileWith_def)

lemma processFileWith_write_failure:
  "readAndParse parse w p = Inr node \<Longrightarrow> convert node = (node', True, c) \<Longrightarrow>
   flt \<noteq> NoFault \<Longrightarrow>
   \<exists>w' err. processFileWith convert parse print flt w p = (w', Inl err)"
  by (cases flt) (simp_all add: processFileWith_def)


text \<open>
  A batch: a directory, a test file that does not parse, a directory that cannot be
  read, a file that is no Go file, a test file that cannot be created anew, and a test
  file that is converted.
\<close>

definition batchEntries :: "entry list" where
  "batchEntries =
     [\<lparr>path = ''pkg'', isDir = True, walkErr = None\<rparr>,
      \<lparr>path = ''pkg/bad_test.go'', isDir = False, walkErr = None\<rparr>,
      \<lparr>path = ''pkg/private'', isDir = True,
        walkErr = Some ''open pkg/private: permission denied''\<rparr>,
      \<lparr>path = ''pkg/notes.txt'', isDir = False, walkErr = None\<rparr>,
      \<lparr>path = ''pkg/ro_test.go'', isDir = False, walkErr = None\<rparr>,
      \<lparr>path = ''pkg/x_test.go'', isDir = False, walkErr = None\<rparr>]"

definition batchWorld :: world where
  "batchWorld =
     \<lparr>files = [''pkg/bad_test.go'' \<mapsto> ''package'', ''pkg/notes.txt'' \<mapsto> ''to do'',
               ''pkg/ro_test.go'' \<mapsto> plainSrc, ''pkg/x_test.go'' \<mapsto> plainSrc],
      created = []\<rparr>"

definition batchFaults :: "string \<Rightarrow> fault" where
  "batchFaults p =
     (if p = ''pkg/ro_test.go'' then CreateFails ''open pkg/ro_test.go: permission denied''
      else NoFault)"

lemma HasSuffix_batch:
  "HasSuffix ''pkg/bad_test.go'' ''.go''" "HasSuffix ''pkg/ro_test.go'' ''.go''"
  "HasSuffix ''pkg/x_test.go'' ''.go''" "\<not> HasSuffix ''pkg/notes.txt'' ''.go''"
  by (simp_all add: HasSuffix_def)

lemma readAndParse_batch:
  "readAndParse plainParse batchWorld ''pkg/bad_test.go'' = Inl ''expected declaration''"
  "readAndParse plainParse batchWorld ''pkg/ro_test.go''
     = Inr (plainFile (SelectorExpr (Ident ''tc'') ''name''))"
  "readAndParse plainParse batchWorld ''pkg/x_test.go''
     = Inr (plainFile (SelectorExpr (Ident ''tc'') ''name''))"
  by (simp_all add: readAndParse_def batchWorld_def plainParse_def parseKnown_def
      plainSrc_def goLines_def)

lemma outcomes_batch:
  "outcomes (processFile2 plainParse plainPrint) batchFaults batchEntries batchWorld =
     [(\<lparr>path = ''pkg'', isDir = True, walkErr = None\<rparr>, Skipped),
      (\<lparr>path = ''pkg/bad_test.go'', isDir = False, walkErr = None\<rparr>,
         Failed ''error parsing file: expected declaration''),
      (\<lparr>path = ''pkg/private'', isDir = True,
         walkErr = Some ''open pkg/private: permission denied''\<rparr>,
         Unreachable ''open pkg/private: permission denied''),
      (\<lparr>path = ''pkg/notes.txt'', isDir = False, walkErr = None\<rparr>, Skipped),
      (\<lparr>path = ''pkg/ro_test.go'', isDir = False, walkErr = None\<rparr>,
         Failed ''error creating file: open pkg/ro_test.go: permission denied''),
      (\<lparr>path = ''pkg/x_test.go'', isDir = False, walkErr = None\<rparr>,
         Processed \<lparr>Modified = True, FileTablesConverted = 0\<rparr>)]"
  by (simp add: batchEntries_def outcomeOf_def HasSuffix_batch batchFaults_def
      processFile2_def processFileWith_def readAndParse_batch convertTree_plainFile)

text \<open>
  C8. The batch never ends with an error, whatever the processing of a file does. Every
  entry has its outcome, the files after a failure as well as those before it, and the
  error list of the batch holds, in the order of the entries, one line with the path and
  the message for each entry that could not be reached and for each file whose
  processing failed. A file that does not parse, and a file that is to be written and
  cannot be created or written, are files whose processing fails.
\<close>

theorem batch_continues:
  "snd (snd (ConvertTableTests processFile faults entries w)) = None
   \<and> map fst (outcomes processFile faults entries w) = entries
   \<and> Errors (fst (snd (ConvertTableTests processFile faults entries w))) =
       concat (map errorLines (outcomes processFile faults entries w))
   \<and> (walkErr e = None \<and> \<not> isDir e \<and> HasSuffix (path e) ''.go''
        \<and> readAndParse parse w1 (path e) = Inl perr \<longrightarrow>
      outcomeOf (processFileWith convert parse print) faults w1 e =
        (w1, Failed (''error parsing file: '' @ perr)))
   \<and> (walkErr e = None \<and> \<not> isDir e \<and> HasSuffix (path e) ''.go''
        \<and> readAndParse parse w1 (path e) = Inr node \<and> convert node = (node', True, c) \<longrightarrow>
      (faults (path e) = CreateFails err \<longrightarrow>
         outcomeOf (processFileWith convert parse print) faults w1 e =
           (w1, Failed (''error creating file: '' @ err)))
      \<and> (faults (path e) = PrintFails n err \<longrightarrow>
         snd (outcomeOf (processFileWith convert parse print) faults w1 e) =
           Failed (''error writing to file: '' @ err)))"
proof -
  have "snd (snd (ConvertTableTests processFile faults entries w)) = None"
    by (simp add: ConvertTableTests_Walk)
  moreover
  have "Errors (fst (snd (ConvertTableTests processFile faults entries w))) =
       concat (map errorLines (outcomes processFile faults entries w))"
    by (simp add: ConvertTableTests_Walk Walk_Errors)
  moreover
  have "walkErr e = None \<and> \<not> isDir e \<and> HasSuffix (path e) ''.go''
        \<and> readAndParse parse w1 (path e) = Inl perr \<longrightarrow>
      outcomeOf (processFileWith convert parse print) faults w1 e =
        (w1, Failed (''error parsing file: '' @ perr))"
    by (simp add: outcomeOf_def processFileWith_def)
  moreover
  have "walkErr e = None \<and> \<not> isDir e \<and> HasSuffix (path e) ''.go''
        \<and> readAndParse parse w1 (path e) = Inr node \<and> convert node = (node', True, c) \<longrightarrow>
      (faults (path e) = CreateFails err \<longrightarrow>
         outcomeOf (processFileWith convert parse print) faults w1 e =
           (w1, Failed (''error creating file: '' @ err)))
      \<and> (faults (path e) = PrintFails n err \<longrightarrow>
         snd (outcomeOf (processFileWith convert parse print) faults w1 e) =
           Failed (''error writing to file: '' @ err))"
    by (simp add: outcomeOf_def processFileWith_def)
  ultimately show ?thesis by (simp add: outcomes_entries)
qed

theorem batch_continues_witness:
  "ConvertTableTests (processFile2 plainParse plainPrint) batchFaults batchEntries batchWorld
     = (fst (ConvertTableTests (processFile2 plainParse plainPrint) batchFaults batchEntries
               batchWorld),
        fst (snd (ConvertTableTests (processFile2 plainParse plainPrint) batchFaults
               batchEntries batchWorld)),
        None)
   \<and> Errors (fst (snd (ConvertTableTests (processFile2 plainParse plainPrint) batchFaults
               batchEntries batchWorld))) =
       [''Error processing pkg/bad_test.go: error parsing file: expected declaration'',
        ''Error accessing pkg/private: open pkg/private: permission denied'',
        ''Error processing pkg/ro_test.go: error creating file: open pkg/ro_test.go: permission denied'']
   \<and> outcomeOf (processFile2 plainParse plainPrint) batchFaults batchWorld
        \<lparr>path = ''pkg/bad_test.go'', isDir = False, walkErr = None\<rparr> =
       (batchWorld, Failed ''error parsing file: expected declaration'')
   \<and> outcomeOf (processFile2 plainParse plainPrint) batchFaults batchWorld
        \<lparr>path = ''pkg/ro_test.go'', isDir = False, walkErr = None\<rparr> =
       (batchWorld, Failed ''error creating file: open pkg/ro_test.go: permission denied'')"
proof -
  note a = batch_continues [where processFile = "processFile2 plainParse plainPrint"
      and faults = batchFaults and entries = batchEntries and w = batchWorld
      and ?w1.0 = batchWorld and parse = plainParse and print = plainPrint
      and convert = convertTree2
      and e = "\<lparr>path = ''pkg/bad_test.go'', isDir = False, walkErr = None\<rparr>"
      and perr = "''expected declaration''", folded processFile2_def]
  note b = batch_continues [where processFile = "processFile2 plainParse plainPrint"
      and faults = batchFaults and entries = batchEntries and w = batchWorld
      and ?w1.0 = batchWorld and parse = plainParse and print = plainPrint
      and convert = convertTree2
      and e = "\<lparr>path = ''pkg/ro_test.go'', isDir = False, walkErr = None\<rparr>"
      and node = "plainFile (SelectorExpr (Ident ''tc'') ''name'')"
      and node' = "plainFile (Ident ''name'')" and c = 0
      and err = "''open pkg/ro_test.go: permission denied''", folded processFile2_def]
  from a b show ?thesis
    by (simp add: outcomes_batch HasSuffix_batch readAndParse_batch convertTree_plainFile
        batchFaults_def prod_eq_iff)
qed

text \<open>
  C9. The number of files processed that the batch reports is the number of the files
  whose processing returned a result. At a file whose processing returns an error the
  result of the batch changes in its error list only, which grows by the line of that
  file.
\<close>

theorem failed_files_not_counted:
  "FilesProcessed (fst (snd (ConvertTableTests processFile faults entries w))) =
     int (length (filter isProcessed (outcomes processFile faults entries w)))
   \<and> (walkErr e = None \<and> \<not> isDir e \<and> HasSuffix (path e) ''.go''
        \<and> processFile (faults (path e)) w1 (path e) = (w', Inl err) \<longrightarrow>
      walkFn processFile faults e (w1, r) =
        ((w', r\<lparr>Errors := Errors r @ [''Error processing '' @ path e @ '': '' @ err]\<rparr>),
         None)
      \<and> outcomeOf processFile faults w1 e = (w', Failed err))"
  by (simp add: ConvertTableTests_Walk Walk_FilesProcessed walkFn_def outcomeOf_def)

theorem failed_files_not_counted_witness:
  "FilesProcessed (fst (snd (ConvertTableTests (processFile2 plainParse plainPrint)
      batchFaults batchEntries batchWorld))) = 1
   \<and> walkFn (processFile2 plainParse plainPrint) batchFaults
        \<lparr>path = ''pkg/bad_test.go'', isDir = False, walkErr = None\<rparr>
        (batchWorld,
         \<lparr>FilesProcessed = 3, FilesModified = 2, TablesConverted = 5, Errors = []\<rparr>) =
       ((batchWorld,
         \<lparr>FilesProcessed = 3, FilesModified = 2, TablesConverted = 5,
           Errors = [''Error processing pkg/bad_test.go: error parsing file: expected declaration'']\<rparr>),
        None)"
proof -
  have p: "processFile2 plainParse plainPrint (batchFaults ''pkg/bad_test.go'') batchWorld
             ''pkg/bad_test.go'' = (batchWorld, Inl ''error parsing file: expected declaration'')"
    by (simp add: processFile2_def processFileWith_def readAndParse_batch)
  from p failed_files_not_counted [where processFile = "processFile2 plainParse plainPrint"
      and faults = batchFaults and entries = batchEntries and w = batchWorld
      and ?w1.0 = batchWorld and w' = batchWorld
      and e = "\<lparr>path = ''pkg/bad_test.go'', isDir = False, walkErr = None\<rparr>"
      and err = "''error parsing file: expected declaration''"
      and r = "\<lparr>FilesProcessed = 3, FilesModified = 2, TablesConverted = 5, Errors = []\<rparr>"]
  show ?thesis by (simp add: outcomes_batch HasSuffix_batch)
qed


section \<open>A second run\<close>

subsection \<open>The converter of assignments\<close>

subsubsection \<open>Trees put back\<close>

fun tag :: "node \<Rightarrow> nat" where
  "tag (Ident s) = 0"
| "tag (BasicLit k v) = 1"
| "tag (CompositeLit ty elts) = 2"
| "tag (KeyValueExpr k v) = 3"
| "tag (SelectorExpr x sel) = 4"
| "tag (CallExpr fn args) = 5"
| "tag (FuncLit ty body) = 6"
| "tag (ArrayType len elt) = 7"
| "tag (StructType fs) = 8"
| "tag (MapType k v) = 9"
| "tag (Field names ty) = 10"
| "tag (AssignStmt lhs t rhs) = 11"
| "tag (RangeStmt k v x body) = 12"
| "tag (ExprStmt x) = 13"
| "tag (DeclStmt d) = 14"
| "tag (BlockStmt stmts) = 15"
| "tag (GenDecl t specs) = 16"
| "tag (ValueSpec names ty vals) = 17"
| "tag (FuncDecl name ty body) = 18"
| "tag (File name decls) = 19"
| "tag (Other kind cs) = 20"

lemma tag_rebuild: "tag (rebuild n cs) = tag n"
  by (cases n) simp_all

lemma rebuild_children: "rebuild n (children n) = n"
proof (cases n)
  case (RangeStmt k v x body)
  then show ?thesis by (cases k; cases v) simp_all
next
  case (CompositeLit ty elts)
  then show ?thesis by (cases ty) simp_all
next
  case (ArrayType len elt)
  then show ?thesis by (cases len) simp_all
next
  case (ValueSpec names ty vals)
  then show ?thesis by (cases ty) simp_all
qed simp_all

lemma two_nth: "length cs = Suc (Suc 0) \<Longrightarrow> [cs ! 0, cs ! Suc 0] = cs"
  by (cases cs; cases "tl cs") auto

lemma one_nth: "length cs = Suc 0 \<Longrightarrow> [cs ! 0] = cs"
  by (cases cs) auto

lemma children_rebuild: "length cs = length (children n) \<Longrightarrow> children (rebuild n cs) = cs"
proof (cases n)
  case (RangeStmt k v x body)
  assume "length cs = length (children n)"
  with RangeStmt show ?thesis
    by (cases k; cases v; cases cs; cases "tl cs"; cases "tl (tl cs)"; cases "tl (tl (tl cs))")
      auto
next
  case (CompositeLit ty elts)
  assume "length cs = length (children n)"
  with CompositeLit show ?thesis by (cases ty; cases cs) auto
next
  case (ArrayType len elt)
  assume "length cs = length (children n)"
  with ArrayType show ?thesis by (cases len; cases cs; cases "tl cs") auto
next
  case (ValueSpec names ty vals)
  assume "length cs = length (children n)"
  with ValueSpec show ?thesis by (cases ty; cases cs) auto
next
  case (CallExpr fn args)
  assume "length cs = length (children n)"
  with CallExpr show ?thesis by (cases cs) auto
qed (auto simp: two_nth one_nth)


subsubsection \<open>What a pass keeps\<close>

text \<open>
  Each pass walks the tree with a visitor that changes nodes of one kind only:
  assignments, range statements or calls. The kind of a node is kept by all of them.
\<close>

fun untouched :: "node \<Rightarrow> bool" where
  "untouched (AssignStmt lhs t rhs) = False"
| "untouched (RangeStmt k v x body) = False"
| "untouched (CallExpr fn args) = False"
| "untouched n = True"

lemma pass_tag:
  assumes "\<forall>n. g n = rebuild (v n) (map g (children (v n)))"
    and "\<forall>n. tag (v n) = tag n"
  shows "tag (g n) = tag n"
proof -
  from assms(1) have "g n = rebuild (v n) (map g (children (v n)))" by blast
  with assms(2) show ?thesis by (simp add: tag_rebuild)
qed

lemma pass_untouched:
  assumes "\<forall>n. g n = rebuild (v n) (map g (children (v n)))"
    and "\<forall>n. untouched n \<longrightarrow> v n = n"
  shows "g (Ident s) = Ident s"
    and "g (Field names ty) = Field names (g ty)"
    and "g (StructType fs) = StructType (map g fs)"
    and "g (ArrayType len elt) = ArrayType (map_option g len) (g elt)"
    and "g (CompositeLit cty elts) = CompositeLit (map_option g cty) (map g elts)"
    and "g (MapType k w) = MapType (g k) (g w)"
    and "g (SelectorExpr x sel) = SelectorExpr (g x) sel"
proof -
  have p: "g n = rebuild (v n) (map g (children (v n)))" for n using assms(1) by blast
  have u: "untouched n \<Longrightarrow> v n = n" for n using assms(2) by blast
  show "g (Ident s) = Ident s"
    by (subst p) (simp add: u)
  show "g (Field names ty) = Field names (g ty)"
    by (subst p) (simp add: u)
  show "g (StructType fs) = StructType (map g fs)"
    by (subst p) (simp add: u)
  show "g (ArrayType len elt) = ArrayType (map_option g len) (g elt)"
    by (subst p) (cases len; simp add: u)
  show "g (CompositeLit cty elts) = CompositeLit (map_option g cty) (map g elts)"
    by (subst p) (cases cty; simp add: u)
  show "g (MapType k w) = MapType (g k) (g w)"
    by (subst p) (simp add: u)
  show "g (SelectorExpr x sel) = SelectorExpr (g x) sel"
    by (subst p) (simp add: u)
qed

text \<open>The three passes are such walks.\<close>

lemma findTables2_fst:
  "fst (findTables2 n) =
     rebuild (fst (tableAssign2 n))
       (map (\<lambda>c. fst (findTables2 c)) (children (fst (tableAssign2 n))))"
  by (subst findTables2.simps) (simp add: Let_def case_prod_beta comp_def)

lemma findTables2_snd:
  "snd (findTables2 n) =
     snd (tableAssign2 n)
       @ concat (map (\<lambda>c. snd (findTables2 c)) (children (fst (tableAssign2 n))))"
  by (subst findTables2.simps) (simp add: Let_def case_prod_beta comp_def)

lemma updateRanges2_fst:
  "fst (updateRanges2 vars n) =
     rebuild (fst (rangeKey2 vars n))
       (map (\<lambda>c. fst (updateRanges2 vars c)) (children (fst (rangeKey2 vars n))))"
  by (subst updateRanges2.simps) (simp add: Let_def case_prod_beta comp_def)

lemma updateRanges2_snd:
  "snd (updateRanges2 vars n) =
     (snd (rangeKey2 vars n)
      \<or> list_ex (\<lambda>c. snd (updateRanges2 vars c)) (children (fst (rangeKey2 vars n))))"
  by (subst updateRanges2.simps) (simp add: Let_def case_prod_beta comp_def list_ex_iff)

lemma updateRunCalls2_fst:
  "fst (updateRunCalls2 n) =
     rebuild (fst (runCall2 n))
       (map (\<lambda>c. fst (updateRunCalls2 c)) (children (fst (runCall2 n))))"
  by (subst updateRunCalls2.simps) (simp add: Let_def case_prod_beta comp_def)

lemma updateRunCalls2_snd:
  "snd (updateRunCalls2 n) =
     (snd (runCall2 n)
      \<or> list_ex (\<lambda>c. snd (updateRunCalls2 c)) (children (fst (runCall2 n))))"
  by (subst updateRunCalls2.simps) (simp add: Let_def case_prod_beta comp_def list_ex_iff)

lemma tableAssign2_untouched: "untouched n \<Longrightarrow> fst (tableAssign2 n) = n"
  by (cases n) simp_all

lemma tableAssign2_tag: "tag (fst (tableAssign2 n)) = tag n"
  by (cases n) (simp_all add: case_prod_beta)

lemma rangeKey2_untouched: "untouched n \<Longrightarrow> fst (rangeKey2 vars n) = n"
  by (cases n) simp_all

lemma rangeKey2_tag: "tag (fst (rangeKey2 vars n)) = tag n"
  by (induction vars n rule: rangeKey2.induct) simp_all

lemma runCall2_untouched: "untouched n \<Longrightarrow> fst (runCall2 n) = n"
  by (cases n) simp_all

lemma runCall2_tag: "tag (fst (runCall2 n)) = tag n"
  by (induction n rule: runCall2.induct) simp_all

lemma findTables2_pass:
  "\<forall>n. fst (findTables2 n) =
     rebuild (fst (tableAssign2 n))
       (map (\<lambda>c. fst (findTables2 c)) (children (fst (tableAssign2 n))))"
  "\<forall>n. tag (fst (tableAssign2 n)) = tag n"
  "\<forall>n. untouched n \<longrightarrow> fst (tableAssign2 n) = n"
  using findTables2_fst tableAssign2_tag tableAssign2_untouched by blast+

lemma updateRanges2_pass:
  "\<forall>n. fst (updateRanges2 vars n) =
     rebuild (fst (rangeKey2 vars n))
       (map (\<lambda>c. fst (updateRanges2 vars c)) (children (fst (rangeKey2 vars n))))"
  "\<forall>n. tag (fst (rangeKey2 vars n)) = tag n"
  "\<forall>n. untouched n \<longrightarrow> fst (rangeKey2 vars n) = n"
  using updateRanges2_fst rangeKey2_tag rangeKey2_untouched by blast+

lemma updateRunCalls2_pass:
  "\<forall>n. fst (updateRunCalls2 n) =
     rebuild (fst (runCall2 n))
       (map (\<lambda>c. fst (updateRunCalls2 c)) (children (fst (runCall2 n))))"
  "\<forall>n. tag (fst (runCall2 n)) = tag n"
  "\<forall>n. untouched n \<longrightarrow> fst (runCall2 n) = n"
  using updateRunCalls2_fst runCall2_tag runCall2_untouched by blast+

subsubsection \<open>Tables stay what they are\<close>

text \<open>
  Whether the first pass converts a right-hand side depends on the shape of its type,
  on the names of the fields of the struct and on the left-hand side being an
  identifier. A pass keeps all of these.
\<close>

fun tableFields :: "node \<Rightarrow> node list option" where
  "tableFields (CompositeLit (Some (ArrayType None (StructType fs))) elts) = Some fs"
| "tableFields n = None"

lemma findNameFieldFrom_names:
  "map fieldNames fs = map fieldNames fs' \<Longrightarrow> findNameFieldFrom i fs = findNameFieldFrom i fs'"
proof (induction fs arbitrary: fs' i)
  case Nil
  then show ?case by simp
next
  case (Cons f fs)
  then obtain f' fs'' where e: "fs' = f' # fs''" "fieldNames f = fieldNames f'"
    "map fieldNames fs = map fieldNames fs''" by auto
  from Cons.IH [OF e(3)] e(1,2) show ?case by (simp only: findNameFieldFrom_step)
qed

lemma fieldNames_tag: "tag n \<noteq> 10 \<Longrightarrow> fieldNames n = []"
  by (cases n) simp_all

lemma tableFields_tag:
  "tag n \<noteq> 2 \<Longrightarrow> tableFields n = None"
  "tag ty \<noteq> 7 \<Longrightarrow> tableFields (CompositeLit (Some ty) elts) = None"
  "tag elt \<noteq> 8 \<Longrightarrow> tableFields (CompositeLit (Some (ArrayType len elt)) elts) = None"
  "tableFields (CompositeLit None elts) = None"
  "tableFields (CompositeLit (Some (ArrayType (Some l) elt)) elts) = None"
    apply (cases n; simp)
   apply (cases ty; simp)
  apply (cases elt; cases len; simp)
  by simp_all

lemma pass_fieldNames:
  assumes "\<forall>n. g n = rebuild (v n) (map g (children (v n)))"
    and "\<forall>n. tag (v n) = tag n"
    and "\<forall>n. untouched n \<longrightarrow> v n = n"
  shows "fieldNames (g n) = fieldNames n"
proof (cases n)
  case (Field names ty)
  then show ?thesis by (simp add: pass_untouched(2) [OF assms(1,3)])
qed (use pass_tag [OF assms(1,2)] in \<open>simp_all add: fieldNames_tag\<close>)

lemma pass_tableFields:
  assumes "\<forall>n. g n = rebuild (v n) (map g (children (v n)))"
    and "\<forall>n. tag (v n) = tag n"
    and "\<forall>n. untouched n \<longrightarrow> v n = n"
  shows "tableFields (g n) = map_option (map g) (tableFields n)"
proof (cases n)
  case (CompositeLit cty elts)
  note c = pass_untouched(5) [OF assms(1,3)]
  show ?thesis
  proof (cases cty)
    case None
    with CompositeLit show ?thesis by (simp add: c)
  next
    case (Some ty)
    show ?thesis
    proof (cases ty)
      case (ArrayType len elt)
      note a = pass_untouched(4) [OF assms(1,3)]
      show ?thesis
      proof (cases len)
        case None
        show ?thesis
        proof (cases elt)
          case (StructType fs)
          with None ArrayType Some CompositeLit show ?thesis
            by (simp add: c a pass_untouched(3) [OF assms(1,3)])
        qed (use None ArrayType Some CompositeLit pass_tag [OF assms(1,2), of elt]
            in \<open>simp_all add: c a tableFields_tag\<close>)
      next
        case (Some l)
        with ArrayType \<open>cty = Some ty\<close> CompositeLit show ?thesis by (simp add: c a)
      qed
    qed (use Some CompositeLit pass_tag [OF assms(1,2), of ty]
        in \<open>simp_all add: c tableFields_tag\<close>)
  qed
qed (use pass_tag [OF assms(1,2), of n] in \<open>simp_all add: tableFields_tag\<close>)


definition isTable2 :: "node list \<Rightarrow> nat \<Rightarrow> node \<Rightarrow> bool" where
  "isTable2 lhs i r =
     (case tableFields r of
        None \<Rightarrow> False
      | Some fs \<Rightarrow> fst (findNameField fs) \<noteq> [] \<and> i < length lhs \<and> tag (lhs ! i) = 0)"

lemma convertRhs2_not_table: "\<not> isTable2 lhs i r \<Longrightarrow> convertRhs2 lhs i r = (r, [])"
proof (induction lhs i r rule: convertRhs2.induct)
  case (1 lhs i fs elts)
  then show ?case
    by (cases "lhs ! i") (auto simp: isTable2_def split: prod.splits)
qed simp_all

lemma convertRhs2_table:
  "isTable2 lhs i r \<Longrightarrow>
   tableFields (fst (convertRhs2 lhs i r)) = None \<and> snd (convertRhs2 lhs i r) \<noteq> []"
proof (induction lhs i r rule: convertRhs2.induct)
  case (1 lhs i fs elts)
  then show ?case
    by (cases "lhs ! i") (auto simp: isTable2_def split: prod.splits)
qed (simp_all add: isTable2_def)

lemma convertRhs2_found: "snd (convertRhs2 lhs i r) = [] \<longleftrightarrow> \<not> isTable2 lhs i r"
  using convertRhs2_not_table [of lhs i r] convertRhs2_table [of lhs i r] by auto

lemma convertRhs2_again: "\<not> isTable2 lhs i (fst (convertRhs2 lhs i r))"
proof (cases "isTable2 lhs i r")
  case True
  with convertRhs2_table [of lhs i r] show ?thesis by (simp add: isTable2_def)
next
  case False
  then show ?thesis by (simp add: convertRhs2_not_table)
qed

lemma pass_isTable2:
  assumes "\<forall>n. g n = rebuild (v n) (map g (children (v n)))"
    and "\<forall>n. tag (v n) = tag n"
    and "\<forall>n. untouched n \<longrightarrow> v n = n"
  shows "isTable2 (map g lhs) i (g r) = isTable2 lhs i r"
proof (cases "tableFields r")
  case None
  then show ?thesis by (simp add: isTable2_def pass_tableFields [OF assms])
next
  case (Some fs)
  have "map fieldNames (map g fs) = map fieldNames fs"
    by (simp add: pass_fieldNames [OF assms])
  then have "findNameField (map g fs) = findNameField fs"
    unfolding findNameField_def by (rule findNameFieldFrom_names)
  with Some show ?thesis
    by (auto simp: isTable2_def pass_tableFields [OF assms] pass_tag [OF assms(1,2)])
qed

lemma convertAllRhs2_quiet:
  "snd (convertAllRhs2 lhs i rhs) = [] \<Longrightarrow> fst (convertAllRhs2 lhs i rhs) = rhs"
proof (induction rhs arbitrary: i)
  case Nil
  show ?case by simp
next
  case (Cons r rs)
  from Cons.prems have a: "snd (convertRhs2 lhs i r) = []"
    and b: "snd (convertAllRhs2 lhs (Suc i) rs) = []"
    by (simp_all add: case_prod_beta)
  from a have "fst (convertRhs2 lhs i r) = r"
    by (simp add: convertRhs2_found convertRhs2_not_table)
  with Cons.IH [OF b] show ?case by (simp add: case_prod_beta)
qed

lemma convertAllRhs2_again:
  "snd (convertAllRhs2 lhs i (fst (convertAllRhs2 lhs i rhs))) = []"
proof (induction rhs arbitrary: i)
  case Nil
  show ?case by simp
next
  case (Cons r rs)
  from convertRhs2_again [of lhs i r] Cons.IH [of "Suc i"] show ?case
    by (simp add: case_prod_beta convertRhs2_found)
qed

lemma pass_convertAllRhs2:
  assumes "\<forall>n. g n = rebuild (v n) (map g (children (v n)))"
    and "\<forall>n. tag (v n) = tag n"
    and "\<forall>n. untouched n \<longrightarrow> v n = n"
  shows "snd (convertAllRhs2 lhs i rhs) = [] \<Longrightarrow>
         snd (convertAllRhs2 (map g lhs) i (map g rhs)) = []"
proof (induction rhs arbitrary: i)
  case Nil
  show ?case by simp
next
  case (Cons r rs)
  from Cons.prems have a: "snd (convertRhs2 lhs i r) = []"
    and b: "snd (convertAllRhs2 lhs (Suc i) rs) = []"
    by (simp_all add: case_prod_beta)
  from a have "snd (convertRhs2 (map g lhs) i (g r)) = []"
    by (simp add: convertRhs2_found pass_isTable2 [OF assms])
  with Cons.IH [OF b] show ?case by (simp add: case_prod_beta)
qed

subsubsection \<open>The first pass has nothing left to do\<close>

lemma tableAssign2_tag_other: "tag n \<noteq> 11 \<Longrightarrow> tableAssign2 n = (n, [])"
  by (cases n) simp_all

lemma tableAssign2_quiet: "snd (tableAssign2 n) = [] \<Longrightarrow> fst (tableAssign2 n) = n"
  by (cases n) (auto simp: case_prod_beta convertAllRhs2_quiet)

lemma tableAssign2_again: "snd (tableAssign2 (fst (tableAssign2 n))) = []"
  by (cases n) (auto simp: case_prod_beta convertAllRhs2_again)

lemma pass_tableAssign2:
  assumes "\<forall>n. g n = rebuild (v n) (map g (children (v n)))"
    and "\<forall>n. tag (v n) = tag n"
    and "\<forall>n. untouched n \<longrightarrow> v n = n"
    and "snd (tableAssign2 m) = []"
  shows "snd (tableAssign2 (rebuild m (map g (children m)))) = []"
proof (cases m)
  case (AssignStmt lhs t rhs)
  with assms(4) pass_convertAllRhs2 [OF assms(1-3), of lhs 0 rhs] show ?thesis
    by (auto simp: case_prod_beta)
qed simp_all

lemma findTables2_fixed:
  assumes "snd (tableAssign2 m) = []"
    and "\<forall>c \<in> set (children m). findTables2 c = (c, [])"
  shows "findTables2 m = (m, [])"
proof (rule prod_eqI)
  from assms(1) have m: "fst (tableAssign2 m) = m" by (rule tableAssign2_quiet)
  from assms(2) have "map (\<lambda>c. fst (findTables2 c)) (children m) = children m"
    by (simp add: map_idI)
  with m show "fst (findTables2 m) = fst (m, [])"
    by (simp add: findTables2_fst [of m] rebuild_children)
  from assms show "snd (findTables2 m) = snd (m, [])"
    by (simp add: findTables2_snd [of m] m)
qed

lemma findTables2_fixedD:
  assumes "findTables2 m = (m, [])"
  shows "snd (tableAssign2 m) = []"
    and "\<forall>c \<in> set (children m). findTables2 c = (c, [])"
proof -
  from assms have s: "snd (findTables2 m) = []" by simp
  then show q: "snd (tableAssign2 m) = []" by (simp add: findTables2_snd [of m])
  then have m: "fst (tableAssign2 m) = m" by (rule tableAssign2_quiet)
  from s m have z: "\<forall>c \<in> set (children m). snd (findTables2 c) = []"
    by (simp add: findTables2_snd [of m])
  from assms have "fst (findTables2 m) = m" by simp
  with m have "rebuild m (map (\<lambda>c. fst (findTables2 c)) (children m)) = m"
    by (simp add: findTables2_fst [of m])
  then have "children (rebuild m (map (\<lambda>c. fst (findTables2 c)) (children m))) = children m"
    by simp
  then have "map (\<lambda>c. fst (findTables2 c)) (children m) = children m"
    by (simp add: children_rebuild)
  then have "\<forall>c \<in> set (children m). fst (findTables2 c) = c"
    by (simp add: map_eq_conv [where g = "\<lambda>c. c", simplified])
  with z show "\<forall>c \<in> set (children m). findTables2 c = (c, [])"
    by (simp add: prod_eq_iff)
qed

lemma findTables2_again: "findTables2 (fst (findTables2 n)) = (fst (findTables2 n), [])"
proof (induction n rule: findTables2.induct)
  case (1 n)
  let ?n' = "fst (tableAssign2 n)"
  let ?cs = "map (\<lambda>c. fst (findTables2 c)) (children ?n')"
  have a: "snd (tableAssign2 (rebuild ?n' ?cs)) = []"
    by (rule pass_tableAssign2 [OF findTables2_pass]) (rule tableAssign2_again)
  have "findTables2 (fst (findTables2 c)) = (fst (findTables2 c), [])"
    if "c \<in> set (children ?n')" for c
    using that by (intro "1.IH" [of "tableAssign2 n" ?n' "snd (tableAssign2 n)"]) simp_all
  then have b: "\<forall>c \<in> set (children (rebuild ?n' ?cs)). findTables2 c = (c, [])"
    by (auto simp: children_rebuild)
  from findTables2_fixed [OF a b] show ?case by (simp add: findTables2_fst [of n])
qed


text \<open>
  The second and the third pass leave assignments as they are, and the children of a
  node they have visited are children the node had, or the identifier \<^verbatim>\<open>name\<close>.
  So they make no table either.
\<close>

lemma pass_findTables2:
  assumes "\<forall>n. g n = rebuild (v n) (map g (children (v n)))"
    and "\<forall>n. tag (v n) = tag n"
    and "\<forall>n. untouched n \<longrightarrow> v n = n"
    and "\<forall>n. tag n = 11 \<longrightarrow> v n = n"
    and "\<forall>n. \<forall>c \<in> set (children (v n)). c \<in> set (children n) \<or> c = Ident ''name''"
  shows "findTables2 n = (n, []) \<Longrightarrow> findTables2 (g n) = (g n, [])"
proof (induction n rule: measure_induct_rule [of weight])
  case (less n)
  have g: "g n = rebuild (v n) (map g (children (v n)))" using assms(1) by blast
  note d = findTables2_fixedD [OF less.prems]
  have a: "snd (tableAssign2 (rebuild (v n) (map g (children (v n))))) = []"
  proof (cases "tag n = 11")
    case True
    with assms(4) have "v n = n" by blast
    with pass_tableAssign2 [OF assms(1-3) d(1)] show ?thesis by simp
  next
    case False
    with assms(2) have "tag (rebuild (v n) (map g (children (v n)))) \<noteq> 11"
      by (simp add: tag_rebuild)
    then show ?thesis by (simp add: tableAssign2_tag_other)
  qed
  have "findTables2 (g c) = (g c, [])" if c: "c \<in> set (children (v n))" for c
  proof -
    from assms(5) c have "c \<in> set (children n) \<or> c = Ident ''name''" by blast
    then show ?thesis
    proof
      assume m: "c \<in> set (children n)"
      with d(2) have "findTables2 c = (c, [])" by blast
      with m show ?thesis by (intro less.IH) (simp_all add: weight_children)
    next
      assume "c = Ident ''name''"
      then show ?thesis
        by (simp add: pass_untouched(1) [OF assms(1,3)] findTables2.simps)
    qed
  qed
  then have b: "\<forall>c \<in> set (children (rebuild (v n) (map g (children (v n))))).
      findTables2 c = (c, [])"
    by (auto simp: children_rebuild)
  from findTables2_fixed [OF a b] show ?case by (simp add: g)
qed

lemma rangeKey2_children:
  "\<forall>c \<in> set (children (fst (rangeKey2 vars n))). c \<in> set (children n) \<or> c = Ident ''name''"
proof (induction vars n rule: rangeKey2.induct)
  case (1 vars k v x body)
  show ?case by (cases k; cases v) auto
qed simp_all

lemma runCall2_children:
  "\<forall>c \<in> set (children (fst (runCall2 n))). c \<in> set (children n) \<or> c = Ident ''name''"
  by (induction n rule: runCall2.induct) auto

lemma rangeKey2_assign: "tag n = 11 \<Longrightarrow> fst (rangeKey2 vars n) = n"
  by (cases n) simp_all

lemma runCall2_assign: "tag n = 11 \<Longrightarrow> fst (runCall2 n) = n"
  by (cases n) simp_all

lemma updateRanges2_findTables2:
  "findTables2 n = (n, []) \<Longrightarrow>
   findTables2 (fst (updateRanges2 vars n)) = (fst (updateRanges2 vars n), [])"
  by (rule pass_findTables2 [of "\<lambda>n. fst (updateRanges2 vars n)" "\<lambda>n. fst (rangeKey2 vars n)",
        OF updateRanges2_pass])
    (simp_all add: rangeKey2_assign rangeKey2_children)

lemma updateRunCalls2_findTables2:
  "findTables2 n = (n, []) \<Longrightarrow>
   findTables2 (fst (updateRunCalls2 n)) = (fst (updateRunCalls2 n), [])"
  by (rule pass_findTables2 [of "\<lambda>n. fst (updateRunCalls2 n)" "\<lambda>n. fst (runCall2 n)",
        OF updateRunCalls2_pass])
    (simp_all add: runCall2_assign runCall2_children)

subsubsection \<open>No table, no loop to update\<close>

lemma rangeKey2_no_table: "rangeKey2 [] n = (n, False)"
  by (induction "[] :: string list" n rule: rangeKey2.induct) simp_all

lemma updateRanges2_no_table: "updateRanges2 [] n = (n, False)"
proof (induction n rule: measure_induct_rule [of weight])
  case (less n)
  then have c: "\<forall>c \<in> set (children n). updateRanges2 [] c = (c, False)"
    by (simp add: weight_children)
  then have "map (\<lambda>c. fst (updateRanges2 [] c)) (children n) = children n"
    by (simp add: map_idI)
  then have "fst (updateRanges2 [] n) = n"
    by (simp add: updateRanges2_fst [of "[]" n] rangeKey2_no_table rebuild_children)
  moreover from c have "snd (updateRanges2 [] n) = False"
    by (simp add: updateRanges2_snd [of "[]" n] rangeKey2_no_table list_ex_iff)
  ultimately show ?case by (simp add: prod_eq_iff)
qed

subsubsection \<open>The third pass has nothing left to do\<close>

fun selOf :: "node \<Rightarrow> (string \<times> string) option" where
  "selOf (SelectorExpr (Ident a) sel) = Some (a, sel)"
| "selOf n = None"

definition isRunCall2 :: "node \<Rightarrow> node list \<Rightarrow> bool" where
  "isRunCall2 fn args =
     (case args of
        [] \<Rightarrow> False
      | arg # rest \<Rightarrow>
          (case (selOf fn, selOf arg) of
             (Some (r, m), Some (x, sel)) \<Rightarrow>
               r = ''t'' \<and> m = ''Run'' \<and> x = ''tc''
                 \<and> (sel = ''name'' \<or> sel = ''desc'' \<or> sel = ''description'')
           | other \<Rightarrow> False))"

lemma runCall2_snd:
  "snd (runCall2 n) = (case n of CallExpr fn args \<Rightarrow> isRunCall2 fn args | other \<Rightarrow> False)"
  by (induction n rule: runCall2.induct) (simp_all add: isRunCall2_def split: list.splits option.splits)

lemma runCall2_tag_other: "tag n \<noteq> 5 \<Longrightarrow> runCall2 n = (n, False)"
  by (cases n) simp_all

lemma runCall2_quiet: "\<not> snd (runCall2 n) \<Longrightarrow> fst (runCall2 n) = n"
  by (induction n rule: runCall2.induct) (simp_all split: if_splits)

lemma runCall2_again: "\<not> snd (runCall2 (fst (runCall2 n)))"
  by (induction n rule: runCall2.induct) simp_all

lemma selOf_tag:
  "tag n \<noteq> 4 \<Longrightarrow> selOf n = None"
  "tag x \<noteq> 0 \<Longrightarrow> selOf (SelectorExpr x sel) = None"
  by (cases n; simp) (cases x; simp)

lemma pass_selOf:
  assumes "\<forall>n. g n = rebuild (v n) (map g (children (v n)))"
    and "\<forall>n. tag (v n) = tag n"
    and "\<forall>n. untouched n \<longrightarrow> v n = n"
  shows "selOf (g n) = selOf n"
proof (cases n)
  case (SelectorExpr x sel)
  show ?thesis
  proof (cases x)
    case (Ident a)
    with SelectorExpr show ?thesis
      by (simp add: pass_untouched(7) [OF assms(1,3)] pass_untouched(1) [OF assms(1,3)])
  qed (use SelectorExpr pass_tag [OF assms(1,2), of x]
      in \<open>simp_all add: pass_untouched(7) [OF assms(1,3)] selOf_tag\<close>)
qed (use pass_tag [OF assms(1,2), of n] in \<open>simp_all add: selOf_tag\<close>)

lemma pass_runCall2:
  assumes "\<forall>n. g n = rebuild (v n) (map g (children (v n)))"
    and "\<forall>n. tag (v n) = tag n"
    and "\<forall>n. untouched n \<longrightarrow> v n = n"
    and "\<not> snd (runCall2 m)"
  shows "\<not> snd (runCall2 (rebuild m (map g (children m))))"
proof (cases m)
  case (CallExpr fn args)
  with assms(4) show ?thesis
    by (cases args) (simp_all add: runCall2_snd isRunCall2_def pass_selOf [OF assms(1-3)])
qed simp_all

lemma updateRunCalls2_fixed:
  assumes "\<not> snd (runCall2 m)"
    and "\<forall>c \<in> set (children m). updateRunCalls2 c = (c, False)"
  shows "updateRunCalls2 m = (m, False)"
proof (rule prod_eqI)
  from assms(1) have m: "fst (runCall2 m) = m" by (rule runCall2_quiet)
  from assms(2) have "map (\<lambda>c. fst (updateRunCalls2 c)) (children m) = children m"
    by (simp add: map_idI)
  with m show "fst (updateRunCalls2 m) = fst (m, False)"
    by (simp add: updateRunCalls2_fst [of m] rebuild_children)
  from assms show "snd (updateRunCalls2 m) = snd (m, False)"
    by (simp add: updateRunCalls2_snd [of m] m list_ex_iff)
qed

lemma updateRunCalls2_again:
  "updateRunCalls2 (fst (updateRunCalls2 n)) = (fst (updateRunCalls2 n), False)"
proof (induction n rule: updateRunCalls2.induct)
  case (1 n)
  let ?n' = "fst (runCall2 n)"
  let ?cs = "map (\<lambda>c. fst (updateRunCalls2 c)) (children ?n')"
  have a: "\<not> snd (runCall2 (rebuild ?n' ?cs))"
    by (rule pass_runCall2 [OF updateRunCalls2_pass]) (rule runCall2_again)
  have "updateRunCalls2 (fst (updateRunCalls2 c)) = (fst (updateRunCalls2 c), False)"
    if "c \<in> set (children ?n')" for c
    using that by (intro "1.IH" [of "runCall2 n" ?n' "snd (runCall2 n)"]) simp_all
  then have b: "\<forall>c \<in> set (children (rebuild ?n' ?cs)). updateRunCalls2 c = (c, False)"
    by (auto simp: children_rebuild)
  from updateRunCalls2_fixed [OF a b] show ?case by (simp add: updateRunCalls2_fst [of n])
qed

subsubsection \<open>The second run\<close>

text \<open>
  On the tree it has made, the converter of assignments changes nothing: it finds no
  table, leaves \<^verbatim>\<open>modified\<close> unset, and gives the tree back as it is. So
  \<^verbatim>\<open>processFile\<close> does not open the file.
\<close>

lemma convertTree2_again:
  "convertTree2 (fst (convertTree2 n)) = (fst (convertTree2 n), False, 0)"
proof -
  let ?vars = "snd (findTables2 n)"
  let ?n1 = "fst (findTables2 n)"
  let ?n2 = "fst (updateRanges2 ?vars ?n1)"
  let ?n3 = "fst (updateRunCalls2 ?n2)"
  have o: "fst (convertTree2 n) = ?n3"
    by (simp add: convertTree2_def case_prod_beta Let_def)
  have "findTables2 ?n1 = (?n1, [])" by (rule findTables2_again)
  then have "findTables2 ?n2 = (?n2, [])" by (rule updateRanges2_findTables2)
  then have a: "findTables2 ?n3 = (?n3, [])" by (rule updateRunCalls2_findTables2)
  have b: "updateRanges2 [] ?n3 = (?n3, False)" by (rule updateRanges2_no_table)
  have c: "updateRunCalls2 ?n3 = (?n3, False)" by (rule updateRunCalls2_again)
  show ?thesis unfolding o by (simp add: convertTree2_def [of ?n3] a b c)
qed

lemma processFile2_again:
  "readAndParse parse w p = Inr (fst (convertTree2 n)) \<Longrightarrow>
   processFile2 parse print flt w p = (w, Inr \<lparr>Modified = False, FileTablesConverted = 0\<rparr>)"
  by (simp add: processFile2_def processFileWith_def convertTree2_again)


subsection \<open>The converter of declarations\<close>

text \<open>
  A test file whose table is declared with its type and whose loop takes the index only:
  \<^verbatim>\<open>var tests []struct{ name string; a int } = []struct{ name string; a int }{{"x", 1}}\<close>
  and \<^verbatim>\<open>for i := range tests { check(t, tests[i]) }\<close>. The same file with the table
  that the converter of declarations writes for it follows.
\<close>

definition indexedFile :: "node \<Rightarrow> node list \<Rightarrow> node" where
  "indexedFile ty rows =
     File ''p''
       [GenDecl T_VAR [ValueSpec [''tests''] (Some ty) [CompositeLit (Some ty) rows]],
        FuncDecl ''TestX''
          (Other ''FuncType''
             [Field [''t''] (Other ''StarExpr'' [SelectorExpr (Ident ''testing'') ''T''])])
          (BlockStmt
             [RangeStmt (Some (Ident ''i'')) None (Ident ''tests'')
                (BlockStmt
                   [ExprStmt
                      (CallExpr (Ident ''check'')
                         [Ident ''t'', Other ''IndexExpr'' [Ident ''tests'', Ident ''i'']])])])]"

definition sliceTests :: node where
  \<open>sliceTests = indexedFile (ArrayType None (StructType sampleFields))
     [CompositeLit None [BasicLit K_STRING ''"x"'', BasicLit K_INT ''1'']]\<close>

definition mapTests :: node where
  \<open>mapTests = indexedFile (MapType (Ident ''string'') (StructType sampleFields))
     [KeyValueExpr (BasicLit K_STRING ''"x"'') (CompositeLit None [BasicLit K_INT ''1''])]\<close>

lemma convertTree1_sliceTests: "convertTree1 sliceTests = (mapTests, True, 1)"
  by code_simp

lemma convertTree1_mapTests: "convertTree1 mapTests = (mapTests, True, 0)"
  by code_simp

definition testsSrc :: "string \<Rightarrow> string" where
  \<open>testsSrc ty = goLines
     [''package p'',
      [],
      ''var tests '' @ ty @ ''struct {'',
      CHR 0x09 # ''name string'',
      CHR 0x09 # ''a    int'',
      ''} = '' @ ty @ ''struct {'',
      CHR 0x09 # ''name string'',
      CHR 0x09 # ''a    int'',
      (if ty = ''[]'' then ''}{{"x", 1}}'' else ''}{"x": {1}}''),
      [],
      ''func TestX(t *testing.T) {'',
      CHR 0x09 # ''for i := range tests {'',
      CHR 0x09 # CHR 0x09 # ''check(t, tests[i])'',
      CHR 0x09 # ''}'',
      ''}'']\<close>

definition testsParse :: "string \<Rightarrow> string + node" where
  "testsParse =
     parseKnown [(testsSrc ''[]'', sliceTests), (testsSrc ''map[string]'', mapTests)]"

definition testsPrint :: "node \<Rightarrow> string" where
  "testsPrint = printKnown [(mapTests, testsSrc ''map[string]'')]"

lemma testsSrc_differ: "testsSrc ''map[string]'' \<noteq> testsSrc ''[]''"
  by (simp add: testsSrc_def goLines_def)

lemma testsParse_testsPrint: "testsParse (testsPrint mapTests) = Inr mapTests"
  by (simp add: testsParse_def testsPrint_def parseKnown_def printKnown_def testsSrc_differ)

text \<open>
  C5. On a tree it has made, the converter of assignments changes nothing and leaves
  \<^verbatim>\<open>modified\<close> unset, so that it does not open a file that parses into such a tree.
  The converter of declarations converts the first file above into the second, and on
  the second it sets \<^verbatim>\<open>modified\<close> again, having changed nothing: the loop ranges
  over a variable declared with a map type and has no value variable. So a file that
  parses into the second tree is opened and written again, and of two runs on the first
  file the second reports a modified file and writes what the first has written.
\<close>

theorem second_run:
  "convertTree2 (fst (convertTree2 n)) = (fst (convertTree2 n), False, 0)
   \<and> (readAndParse parse w p = Inr (fst (convertTree2 n)) \<longrightarrow>
        processFile2 parse print flt w p =
          (w, Inr \<lparr>Modified = False, FileTablesConverted = 0\<rparr>))
   \<and> convertTree1 sliceTests = (mapTests, True, 1)
   \<and> convertTree1 mapTests = (mapTests, True, 0)
   \<and> (readAndParse parse w p = Inr mapTests \<longrightarrow>
        processFile1 parse print NoFault w p =
          (w\<lparr>files := (files w)(p \<mapsto> print mapTests), created := created w @ [p]\<rparr>,
           Inr \<lparr>Modified = True, FileTablesConverted = 0\<rparr>))
   \<and> (readAndParse parse w p = Inr sliceTests \<and> parse (print mapTests) = Inr mapTests \<longrightarrow>
        (let first = processFile1 parse print NoFault w p;
             second = processFile1 parse print NoFault (fst first) p
         in snd first = Inr \<lparr>Modified = True, FileTablesConverted = 1\<rparr>
            \<and> snd second = Inr \<lparr>Modified = True, FileTablesConverted = 0\<rparr>
            \<and> files (fst second) = files (fst first)
            \<and> created (fst second) = created w @ [p, p]))"
proof -
  have "readAndParse parse w p = Inr mapTests \<longrightarrow>
        processFile1 parse print NoFault w p =
          (w\<lparr>files := (files w)(p \<mapsto> print mapTests), created := created w @ [p]\<rparr>,
           Inr \<lparr>Modified = True, FileTablesConverted = 0\<rparr>)"
    by (simp add: convertTree1_mapTests processFile1_def processFileWith_def)
  moreover
  have "readAndParse parse w p = Inr sliceTests \<and> parse (print mapTests) = Inr mapTests \<longrightarrow>
        (let first = processFile1 parse print NoFault w p;
             second = processFile1 parse print NoFault (fst first) p
         in snd first = Inr \<lparr>Modified = True, FileTablesConverted = 1\<rparr>
            \<and> snd second = Inr \<lparr>Modified = True, FileTablesConverted = 0\<rparr>
            \<and> files (fst second) = files (fst first)
            \<and> created (fst second) = created w @ [p, p])"
    by (simp add: convertTree1_sliceTests convertTree1_mapTests processFile1_def
        processFileWith_def readAndParse_def Let_def)
  ultimately show ?thesis
    using processFile2_again [of parse w p n print flt]
    by (simp add: convertTree2_again convertTree1_sliceTests convertTree1_mapTests)
qed

theorem second_run_witness:
  "processFile2 (parseKnown [(plainOut, plainFile (Ident ''name''))]) plainPrint NoFault
     \<lparr>files = [''x_test.go'' \<mapsto> plainOut], created = []\<rparr> ''x_test.go'' =
     (\<lparr>files = [''x_test.go'' \<mapsto> plainOut], created = []\<rparr>,
      Inr \<lparr>Modified = False, FileTablesConverted = 0\<rparr>)
   \<and> processFile1 testsParse testsPrint NoFault
     \<lparr>files = [''x_test.go'' \<mapsto> testsSrc ''map[string]''], created = []\<rparr> ''x_test.go'' =
     (\<lparr>files = [''x_test.go'' \<mapsto> testsSrc ''map[string]''], created = [''x_test.go'']\<rparr>,
      Inr \<lparr>Modified = True, FileTablesConverted = 0\<rparr>)
   \<and> snd (processFile1 testsParse testsPrint NoFault
       (fst (processFile1 testsParse testsPrint NoFault
          \<lparr>files = [''x_test.go'' \<mapsto> testsSrc ''[]''], created = []\<rparr> ''x_test.go''))
       ''x_test.go'') = Inr \<lparr>Modified = True, FileTablesConverted = 0\<rparr>"
proof -
  have a: "readAndParse testsParse
      \<lparr>files = [''x_test.go'' \<mapsto> testsSrc ''map[string]''], created = []\<rparr> ''x_test.go''
        = Inr mapTests"
    by (simp add: readAndParse_def testsParse_def parseKnown_def testsSrc_differ)
  have b: "readAndParse testsParse
      \<lparr>files = [''x_test.go'' \<mapsto> testsSrc ''[]''], created = []\<rparr> ''x_test.go''
        = Inr sliceTests"
    by (simp add: readAndParse_def testsParse_def parseKnown_def)
  have c: "testsPrint mapTests = testsSrc ''map[string]''"
    by (simp add: testsPrint_def printKnown_def)
  have d: "readAndParse (parseKnown [(plainOut, plainFile (Ident ''name''))])
      \<lparr>files = [''x_test.go'' \<mapsto> plainOut], created = []\<rparr> ''x_test.go''
        = Inr (fst (convertTree2 (plainFile (SelectorExpr (Ident ''tc'') ''name''))))"
    by (simp add: readAndParse_def parseKnown_def convertTree_plainFile)
  from a b testsParse_testsPrint
    second_run [of "plainFile (SelectorExpr (Ident ''tc'') ''name'')" testsParse
      "\<lparr>files = [''x_test.go'' \<mapsto> testsSrc ''map[string]''], created = []\<rparr>"
      "''x_test.go''" testsPrint]
    second_run [of "plainFile (SelectorExpr (Ident ''tc'') ''name'')" testsParse
      "\<lparr>files = [''x_test.go'' \<mapsto> testsSrc ''[]''], created = []\<rparr>"
      "''x_test.go''" testsPrint]
  have v1: "processFile1 testsParse testsPrint NoFault
     \<lparr>files = [''x_test.go'' \<mapsto> testsSrc ''map[string]''], created = []\<rparr> ''x_test.go'' =
     (\<lparr>files = [''x_test.go'' \<mapsto> testsSrc ''map[string]''], created = [''x_test.go'']\<rparr>,
      Inr \<lparr>Modified = True, FileTablesConverted = 0\<rparr>)
   \<and> snd (processFile1 testsParse testsPrint NoFault
       (fst (processFile1 testsParse testsPrint NoFault
          \<lparr>files = [''x_test.go'' \<mapsto> testsSrc ''[]''], created = []\<rparr> ''x_test.go''))
       ''x_test.go'') = Inr \<lparr>Modified = True, FileTablesConverted = 0\<rparr>"
    by (simp add: c Let_def)
  from d second_run [of "plainFile (SelectorExpr (Ident ''tc'') ''name'')"
      "parseKnown [(plainOut, plainFile (Ident ''name''))]"
      "\<lparr>files = [''x_test.go'' \<mapsto> plainOut], created = []\<rparr>" "''x_test.go''"
      plainPrint NoFault]
  have v2: "processFile2 (parseKnown [(plainOut, plainFile (Ident ''name''))]) plainPrint NoFault
     \<lparr>files = [''x_test.go'' \<mapsto> plainOut], created = []\<rparr> ''x_test.go'' =
     (\<lparr>files = [''x_test.go'' \<mapsto> plainOut], created = []\<rparr>,
      Inr \<lparr>Modified = False, FileTablesConverted = 0\<rparr>)"
    by simp
  from v1 v2 show ?thesis by simp
qed

end
